theory Spec2Isabelle
  imports Main "HOL-Library.AList"
begin

section \<open>Values of the host language\<close>

text \<open>
  A function value of the program is either a class constructor (entities are classes)
  or an arrow function \<open>() => C\<close> that returns a class when it is called: the lazy type
  thunk of a relation. The string is the class name.
\<close>

datatype func = Class string | Thunk string

text \<open>
  What a document, a condition object or an entity holds. Numbers are integers here;
  a document reference is its full path (\<open>collection/id\<close>); an object is its list of
  properties in insertion order, each key once.
\<close>

datatype jsval =
    JUndefined
  | JNull
  | JBool bool
  | JNum int
  | JStr string
  | JTimestamp int
  | JDate int
  | JGeoPoint int int
  | JRef string
  | JArr "jsval list"
  | JObj "(string \<times> jsval) list"

type_synonym fields = "(string \<times> jsval) list"

text \<open>The errors the two source files throw, and the TypeError of the runtime.\<close>

datatype error =
    CollectionNotFound
  | IdPerpertyNotFound
  | EntityNotFound func
  | InvalidPaginationToken
  | FindByIdsNotSupportCollectionGroup
  | TypeError
  | InvalidArgument

text \<open>Truthiness, as \<open>if (x)\<close> and \<open>!x\<close> read a value.\<close>

fun truthy :: "jsval \<Rightarrow> bool" where
  "truthy JUndefined = False"
| "truthy JNull = False"
| "truthy (JBool b) = b"
| "truthy (JNum n) = (n \<noteq> 0)"
| "truthy (JStr s) = (s \<noteq> [])"
| "truthy _ = True"

text \<open>\<open>obj[key]\<close> on a plain object: undefined when the key is absent.\<close>

definition obj_get :: "fields \<Rightarrow> string \<Rightarrow> jsval" where
  "obj_get obj key = (case map_of obj key of None \<Rightarrow> JUndefined | Some v \<Rightarrow> v)"

text \<open>\<open>obj[key] = v\<close>: an existing key keeps its place, a new key goes last.\<close>

definition obj_set :: "fields \<Rightarrow> string \<Rightarrow> jsval \<Rightarrow> fields" where
  "obj_set obj key v = AList.update key v obj"

text \<open>The id of a document reference: the last segment of its path.\<close>

definition ref_id :: "string \<Rightarrow> string" where
  "ref_id path = rev (takeWhile (\<lambda>c. c \<noteq> CHR ''/'') (rev path))"

text \<open>
  String concatenation \<open>'' + v\<close>. Strings, booleans, null and undefined print as the
  language prints them; integers in decimal; every object prints as
  \<open>[object Object]\<close> (arrays, dates and timestamps have printers of their own that no
  statement below depends on).
\<close>

fun digits :: "nat \<Rightarrow> nat \<Rightarrow> string" where
  "digits 0 n = []"
| "digits (Suc fuel) n =
     (if n < 10 then [char_of (48 + n)]
      else digits fuel (n div 10) @ [char_of (48 + n mod 10)])"

definition show_int :: "int \<Rightarrow> string" where
  "show_int i = (if i < 0 then CHR ''-'' # digits (Suc (nat (- i))) (nat (- i))
                 else digits (Suc (nat i)) (nat i))"

fun to_str :: "jsval \<Rightarrow> string" where
  "to_str JUndefined = ''undefined''"
| "to_str JNull = ''null''"
| "to_str (JBool b) = (if b then ''true'' else ''false'')"
| "to_str (JNum n) = show_int n"
| "to_str (JStr s) = s"
| "to_str _ = ''[object Object]''"

section \<open>The metadata registry (metadata-storage.ts)\<close>

record CollectionOptions =
  prefix :: "string option"

record CollectionMetadataArgs =
  c_name :: string
  c_target :: func
  c_options :: CollectionOptions

datatype strategy = UuidV1 | UuidV4 | Auto | Custom string

record IdPropertyMetadataArgs =
  id_target :: func
  id_propertyName :: string
  id_strategy :: strategy

record PropertyMetadataArgs =
  p_target :: func
  p_propertyName :: string

datatype relationType = OneToMany | ManyToOne | OneToOne

text \<open>
  \<open>r_type\<close> is the \<open>type\<close> field, a function value. \<open>r_inverseSide\<close> is read by
  \<open>loadRelations\<close> (\<open>relationMetadataArg.inverseSide!\<close>); the interface in
  metadata-storage.ts does not list it, so it is carried here as one more string field.
\<close>

record RelationMetadataArgs =
  r_target :: func
  r_propertyName :: string
  r_relationType :: relationType
  r_lazy :: bool
  r_type :: func
  r_inverseSide :: string

record MetadataStorage =
  collections :: "CollectionMetadataArgs list"
  ids :: "IdPropertyMetadataArgs list"
  properties :: "PropertyMetadataArgs list"
  relations :: "RelationMetadataArgs list"

text \<open>\<open>new MetadataStorage()\<close>: four empty arrays.\<close>

definition newMetadataStorage :: MetadataStorage where
  "newMetadataStorage = \<lparr>collections = [], ids = [], properties = [], relations = []\<rparr>"

definition getCollection :: "MetadataStorage \<Rightarrow> func \<Rightarrow> error + CollectionMetadataArgs" where
  "getCollection st target =
     (case List.find (\<lambda>collection. c_target collection = target) (collections st) of
        None \<Rightarrow> Inl CollectionNotFound
      | Some collection \<Rightarrow> Inr collection)"

definition getCollectionName :: "MetadataStorage \<Rightarrow> func \<Rightarrow> error + string" where
  "getCollectionName st target =
     (case List.find (\<lambda>collection. c_target collection = target) (collections st) of
        None \<Rightarrow> Inl CollectionNotFound
      | Some collection \<Rightarrow>
          Inr ((case prefix (c_options collection) of
                  None \<Rightarrow> []
                | Some p \<Rightarrow> (if p \<noteq> [] then p else []))
               @ c_name collection))"

definition getProperties :: "MetadataStorage \<Rightarrow> func \<Rightarrow> PropertyMetadataArgs list" where
  "getProperties st target = filter (\<lambda>property. p_target property = target) (properties st)"

definition getIdProp :: "MetadataStorage \<Rightarrow> func \<Rightarrow> error + IdPropertyMetadataArgs" where
  "getIdProp st target =
     (case List.find (\<lambda>idProp. id_target idProp = target) (ids st) of
        None \<Rightarrow> Inl IdPerpertyNotFound
      | Some primaryProp \<Rightarrow> Inr primaryProp)"

definition getIdPropName :: "MetadataStorage \<Rightarrow> func \<Rightarrow> error + string" where
  "getIdPropName st target =
     (case getIdProp st target of
        Inl e \<Rightarrow> Inl e
      | Inr primaryProp \<Rightarrow> Inr (id_propertyName primaryProp))"

text \<open>
  The two uuid generators are libraries outside the program: the values they produce in
  a call are arguments here. The result is \<open>None\<close> where the source returns undefined.
\<close>

definition getIdGenerataValue ::
  "string \<Rightarrow> string \<Rightarrow> MetadataStorage \<Rightarrow> func \<Rightarrow> error + string option" where
  "getIdGenerataValue uuid1 uuid4 st target =
     (case getIdProp st target of
        Inl e \<Rightarrow> Inl e
      | Inr primaryProp \<Rightarrow>
          (case id_strategy primaryProp of
             Custom s \<Rightarrow> Inr (Some s)
           | UuidV1 \<Rightarrow> Inr (Some uuid1)
           | UuidV4 \<Rightarrow> Inr (Some uuid4)
           | Auto \<Rightarrow> Inr None))"

text \<open>
  Modelled from the spec: \<open>getCollectionPath\<close> is called throughout the query layer but
  is not a method of the MetadataStorage under src/. The spec names "missing metadata
  (collection not registered)" as its one failure, so it is taken to resolve the path
  the way \<open>getCollectionName\<close> does: the first collection entry of the class, or
  CollectionNotFound.
\<close>

definition getCollectionPath :: "MetadataStorage \<Rightarrow> func \<Rightarrow> error + string" where
  "getCollectionPath st target = getCollectionName st target"

text \<open>
  Modelled from the spec: the decorators that fill the registry are not under src/.
  The spec says of them that metadata is "registered at class-definition time" and
  that "each class has at most one id property". A registration of an id property is
  therefore taken to add its entry at the end of the \<open>ids\<close> array when the class has no
  id property yet, and to leave the registry as it is when the class already has one.
\<close>

definition registerId :: "MetadataStorage \<Rightarrow> IdPropertyMetadataArgs \<Rightarrow> MetadataStorage" where
  "registerId st idProp =
     (case List.find (\<lambda>entry. id_target entry = id_target idProp) (ids st) of
        None \<Rightarrow> st\<lparr>ids := ids st @ [idProp]\<rparr>
      | Some entry \<Rightarrow> st)"

text \<open>The id entries the registry holds for one class.\<close>

definition idsOf :: "MetadataStorage \<Rightarrow> func \<Rightarrow> IdPropertyMetadataArgs list" where
  "idsOf st target = filter (\<lambda>idProp. id_target idProp = target) (ids st)"

section \<open>The document store\<close>

text \<open>
  The managed document database is outside the program. What the query layer sees of it
  is a document at a path (\<open>fs_doc\<close>) and the documents a query returns (\<open>fs_run\<close>);
  both are parameters of every statement below. A query is the collection (or collection
  group) it starts from and the builder calls made on it, in call order.
\<close>

record DocumentSnapshot =
  snap_id :: string
  snap_path :: string
  snap_exists :: bool
  snap_data :: fields

datatype source = CollectionGroupOf string | CollectionAt string

datatype cursor = CursorValue jsval | CursorSnapshot DocumentSnapshot

datatype qstep =
    QWhere string jsval jsval
  | QSelect "string list"
  | QOrderBy string string
  | QLimit nat
  | QOffset nat
  | QStartAfter "cursor list"
  | QStartAt "cursor list"
  | QEndBefore "cursor list"
  | QEndAt "cursor list"

record Query =
  q_source :: source
  q_steps :: "qstep list"

record Firestore =
  fs_doc :: "string \<Rightarrow> fields option"
  fs_run :: "Query \<Rightarrow> DocumentSnapshot list"

text \<open>
  A read issued against the store. The flag says whether it went through the
  transaction of the options (\<open>tnx.get\<close>, \<open>tnx.getAll\<close>).
\<close>

datatype request =
    QueryGet bool Query
  | DocGet string
  | GetAll bool "string list"

text \<open>
  The rules of the client for \<open>firestore.collection(collectionPath).doc(id)\<close>. A path
  argument must be a non-empty string without \<open>//\<close>; its segments are the non-empty
  pieces between slashes (a leading or trailing slash is allowed). \<open>collection\<close> takes
  a path with an odd number of segments, \<open>doc\<close> an id that makes the number even. The
  client throws an error of its own (InvalidArgument) for anything else; otherwise the
  reference has the path of all the segments.
\<close>

fun splitSlash :: "string \<Rightarrow> string list" where
  "splitSlash [] = [[]]"
| "splitSlash (c # cs) =
     (if c = CHR ''/'' then [] # splitSlash cs
      else (case splitSlash cs of
              [] \<Rightarrow> [[c]]
            | piece # pieces \<Rightarrow> (c # piece) # pieces))"

definition segments :: "string \<Rightarrow> string list" where
  "segments path = filter (\<lambda>piece. piece \<noteq> []) (splitSlash path)"

fun doubleSlash :: "string \<Rightarrow> bool" where
  "doubleSlash (a # b # cs) = ((a = CHR ''/'' \<and> b = CHR ''/'') \<or> doubleSlash (b # cs))"
| "doubleSlash cs = False"

fun joinSlash :: "string list \<Rightarrow> string" where
  "joinSlash [] = []"
| "joinSlash [piece] = piece"
| "joinSlash (piece # pieces) = piece @ ''/'' @ joinSlash pieces"

definition validResourcePath :: "string \<Rightarrow> bool" where
  "validResourcePath path = (path \<noteq> [] \<and> \<not> doubleSlash path)"

definition clientDoc :: "string \<Rightarrow> string \<Rightarrow> error + string" where
  "clientDoc collectionPath ident =
     (if \<not> validResourcePath collectionPath \<or> even (length (segments collectionPath))
      then Inl InvalidArgument
      else if \<not> validResourcePath ident
              \<or> odd (length (segments collectionPath @ segments ident))
      then Inl InvalidArgument
      else Inr (joinSlash (segments collectionPath @ segments ident)))"

text \<open>\<open>firestore.doc(path).get()\<close>: the snapshot of the document at a path.\<close>

definition getDoc :: "Firestore \<Rightarrow> string \<Rightarrow> DocumentSnapshot" where
  "getDoc fs path =
     \<lparr>snap_id = ref_id path, snap_path = path,
      snap_exists = (fs_doc fs path \<noteq> None),
      snap_data = (case fs_doc fs path of None \<Rightarrow> [] | Some d \<Rightarrow> d)\<rparr>"

definition addStep :: "Query \<Rightarrow> qstep \<Rightarrow> Query" where
  "addStep q s = q\<lparr>q_steps := q_steps q @ [s]\<rparr>"

definition addSteps :: "Query \<Rightarrow> qstep list \<Rightarrow> Query" where
  "addSteps q ss = q\<lparr>q_steps := q_steps q @ ss\<rparr>"

section \<open>The query layer (CollectionQuery)\<close>

record CollectionQueryOption =
  collectionId :: "string option"
  parentPath :: "string option"
  tnx :: bool

record CollectionQuery =
  firestore :: Firestore
  options :: CollectionQueryOption

text \<open>
  What the class reads from outside itself: the process-wide registry
  (\<open>getMetadataStorage()\<close>) and the class-transformation library, which turns a plain
  object into an instance of the class. An instance is modelled by its properties.
\<close>

record World =
  metadataStorage :: MetadataStorage
  plainToClass :: "func \<Rightarrow> fields \<Rightarrow> fields"

text \<open>\<open>if (this.options.collectionId)\<close>: an absent or empty string is falsy.\<close>

definition truthy_str :: "string option \<Rightarrow> bool" where
  "truthy_str x = (case x of None \<Rightarrow> False | Some s \<Rightarrow> s \<noteq> [])"

text \<open>
  The options of find and findOne. A field is \<open>None\<close> when the options object does not
  carry it. \<open>limit\<close> and \<open>offset\<close> are counts.
\<close>

record FindOptions =
  o_where :: "fields option"
  o_select :: "string list option"
  o_order :: "(string \<times> string) list option"
  o_limit :: "nat option"
  o_offset :: "nat option"
  o_startAfter :: "cursor list option"
  o_startAt :: "cursor list option"
  o_endBefore :: "cursor list option"
  o_endAt :: "cursor list option"
  o_relations :: "string list option"

text \<open>
  Modelled from the spec: \<open>FindOptionsUtils.isFindManyOptions\<close> and
  \<open>isFindOneOptions\<close> are not under src/. The second argument of a find is, by its
  declared overloads, absent, an options object or a conditions object; the guard is
  taken to tell the options object from the conditions object, so the argument is a
  tagged union and the guard is the test of the tag.
\<close>

datatype find_arg = NoArg | Options FindOptions | Conditions fields

definition getFindConditionsFromFindManyOptions :: "find_arg \<Rightarrow> fields option" where
  "getFindConditionsFromFindManyOptions optionsOrConditions =
     (case optionsOrConditions of
        NoArg \<Rightarrow> None
      | Options opts \<Rightarrow> o_where opts
      | Conditions c \<Rightarrow> Some c)"

definition getFindConditionsFromFindOneOptions :: "find_arg \<Rightarrow> fields option" where
  "getFindConditionsFromFindOneOptions optionsOrConditions =
     (case optionsOrConditions of
        NoArg \<Rightarrow> None
      | Options opts \<Rightarrow> o_where opts
      | Conditions c \<Rightarrow> Some c)"

text \<open>
  \<open>convertToJsObject\<close>, on one property value: a timestamp becomes a date, a geo point
  a plain pair, a document reference its id, and arrays and objects are walked. The
  source skips falsy values first; they are unchanged by the last equation. Plain
  objects of a document carry data only, so none has a \<open>toDate\<close> or \<open>constructor\<close>
  property of its own.
\<close>

fun convertValue :: "jsval \<Rightarrow> jsval" where
  "convertValue (JTimestamp t) = JDate t"
| "convertValue (JGeoPoint latitude longitude) =
     JObj [(''latitude'', JNum latitude), (''longitude'', JNum longitude)]"
| "convertValue (JRef path) = JStr (ref_id path)"
| "convertValue (JArr xs) = JArr (map convertValue xs)"
| "convertValue (JObj fs) = JObj (map (\<lambda>kv. (fst kv, convertValue (snd kv))) fs)"
| "convertValue v = v"

definition convertToJsObject :: "fields \<Rightarrow> fields" where
  "convertToJsObject obj = map (\<lambda>kv. (fst kv, convertValue (snd kv))) obj"

definition transformToClass :: "World \<Rightarrow> func \<Rightarrow> fields \<Rightarrow> fields" where
  "transformToClass w target obj = plainToClass w target (convertToJsObject obj)"

text \<open>Calling a function value: a thunk returns its class, a class constructor called
  without \<open>new\<close> throws.\<close>

definition callType :: "func \<Rightarrow> error + func" where
  "callType f = (case f of Thunk c \<Rightarrow> Inr (Class c) | Class c \<Rightarrow> Inl TypeError)"

text \<open>\<open>v.key\<close> for a condition value: reading a property of null or undefined throws.\<close>

definition get_prop :: "jsval \<Rightarrow> string \<Rightarrow> error + jsval" where
  "get_prop v key =
     (case v of
        JUndefined \<Rightarrow> Inl TypeError
      | JNull \<Rightarrow> Inl TypeError
      | JObj fs \<Rightarrow> Inr (obj_get fs key)
      | _ \<Rightarrow> Inr JUndefined)"

definition is_ref :: "jsval \<Rightarrow> bool" where
  "is_ref v = (case v of JRef p \<Rightarrow> True | _ \<Rightarrow> False)"

subsection \<open>loadRelations\<close>

text \<open>
  What a relation fetch resolves to: the snapshot of one document
  (\<open>field.get()\<close>), or the documents of a query.
\<close>

datatype fetched = FetchedDoc DocumentSnapshot | FetchedQuery "DocumentSnapshot list"

text \<open>
  The three things \<open>loadRelations\<close> mutates while it maps over the documents:
  \<open>relationDocMapping\<close> (an array of objects from relation name to path),
  \<open>relationDocCache\<close> (from path to the pending fetch; the store does not change during
  the call, so the entry holds what the fetch resolves to), and the reads issued so far,
  each under the cache key it was issued for.
\<close>

record RelState =
  mapping :: "(string \<times> string) list list"
  cache :: "(string \<times> fetched) list"
  fetches :: "(string \<times> request) list"

definition emptyRelState :: RelState where
  "emptyRelState = \<lparr>mapping = [], cache = [], fetches = []\<rparr>"

text \<open>\<open>if (!relationDocMapping[index]) relationDocMapping.push({})\<close>\<close>

definition ensureMapping :: "(string \<times> string) list list \<Rightarrow> nat \<Rightarrow> (string \<times> string) list list" where
  "ensureMapping m index = (if index < length m then m else m @ [[]])"

text \<open>
  \<open>relationDocMapping[index][relation] = path\<close>: a TypeError when the array has no
  object at \<open>index\<close>.
\<close>

definition setMapping ::
  "(string \<times> string) list list \<Rightarrow> nat \<Rightarrow> string \<Rightarrow> string \<Rightarrow> error + (string \<times> string) list list" where
  "setMapping m index relation path =
     (if index < length m then Inr (m[index := AList.update relation path (m ! index)])
      else Inl TypeError)"

text \<open>\<open>if (!relationDocCache[key]) relationDocCache[key] = <the read>\<close>\<close>

definition fetchOnce :: "string \<Rightarrow> request \<Rightarrow> fetched \<Rightarrow> RelState \<Rightarrow> RelState" where
  "fetchOnce key req res st =
     (if map_of (cache st) key = None
      then st\<lparr>cache := cache st @ [(key, res)], fetches := fetches st @ [(key, req)]\<rparr>
      else st)"

text \<open>
  The body of \<open>relations.forEach\<close> for one relation name of one document. Relation
  names are property names, so \<open>dot.pick(relation, data)\<close> is \<open>data[relation]\<close>.
\<close>

definition relationStep ::
  "World \<Rightarrow> CollectionQuery \<Rightarrow> string \<Rightarrow> string \<Rightarrow> RelationMetadataArgs list \<Rightarrow>
   fields \<Rightarrow> nat \<Rightarrow> RelState \<Rightarrow> string \<Rightarrow> error + RelState" where
  "relationStep w this collectionPath idPropName relationMetadataArgs data index st relation =
     (case List.find (\<lambda>item. r_propertyName item = relation) relationMetadataArgs of
        None \<Rightarrow> Inr st
      | Some relationMetadataArg \<Rightarrow>
          (case r_relationType relationMetadataArg of
             ManyToOne \<Rightarrow>
               (let m = ensureMapping (mapping st) index in
                case obj_get data relation of
                  JRef path \<Rightarrow>
                    (case setMapping m index relation path of
                       Inl e \<Rightarrow> Inl e
                     | Inr m' \<Rightarrow>
                         Inr (fetchOnce path (DocGet path)
                                (FetchedDoc (getDoc (firestore this) path))
                                (st\<lparr>mapping := m'\<rparr>)))
                | _ \<Rightarrow> Inr (st\<lparr>mapping := m\<rparr>))
           | OneToMany \<Rightarrow>
               (case callType (r_type relationMetadataArg) of
                  Inl e \<Rightarrow> Inl e
                | Inr cls \<Rightarrow>
                    (case getCollectionPath (metadataStorage w) cls of
                       Inl e \<Rightarrow> Inl e
                     | Inr relationCollectionPath \<Rightarrow>
                         (let documentPath =
                                collectionPath @ ''/'' @ to_str (obj_get data idPropName);
                              m = ensureMapping (mapping st) index
                          in case setMapping m index relation documentPath of
                               Inl e \<Rightarrow> Inl e
                             | Inr m' \<Rightarrow>
                                 (let q = \<lparr>q_source = CollectionAt relationCollectionPath,
                                           q_steps = [QWhere (r_inverseSide relationMetadataArg)
                                                        (JStr ''=='') (JRef documentPath)]\<rparr>
                                  in Inr (fetchOnce documentPath (QueryGet False q)
                                            (FetchedQuery (fs_run (firestore this) q))
                                            (st\<lparr>mapping := m'\<rparr>))))))
           | OneToOne \<Rightarrow> Inr st))"

text \<open>
  \<open>relations.forEach\<close>: a throw ends the whole call; the reads issued before it stay
  issued, so the state comes back with the error.
\<close>

fun relationsLoop ::
  "(RelState \<Rightarrow> string \<Rightarrow> error + RelState) \<Rightarrow> string list \<Rightarrow> RelState \<Rightarrow> error option \<times> RelState" where
  "relationsLoop step [] st = (None, st)"
| "relationsLoop step (relation # rest) st =
     (case step st relation of
        Inl e \<Rightarrow> (Some e, st)
      | Inr st' \<Rightarrow> relationsLoop step rest st')"

text \<open>
  \<open>docs.map((doc, index) => ...)\<close>: a null document gives null; any other gives its data
  with the id property set, after its relations were walked.
\<close>

fun docsLoop ::
  "World \<Rightarrow> CollectionQuery \<Rightarrow> func \<Rightarrow> string \<Rightarrow> string \<Rightarrow> string list \<Rightarrow>
   nat \<Rightarrow> DocumentSnapshot option list \<Rightarrow> RelState \<Rightarrow> (error + fields option list) \<times> RelState" where
  "docsLoop w this target collectionPath idPropName rels index [] st = (Inr [], st)"
| "docsLoop w this target collectionPath idPropName rels index (None # rest) st =
     (case docsLoop w this target collectionPath idPropName rels (Suc index) rest st of
        (Inl e, st') \<Rightarrow> (Inl e, st')
      | (Inr datas, st') \<Rightarrow> (Inr (None # datas), st'))"
| "docsLoop w this target collectionPath idPropName rels index (Some doc # rest) st =
     (let data = obj_set (snap_data doc) idPropName (JStr (snap_id doc)) in
      case (if rels \<noteq> []
            then relationsLoop
                   (relationStep w this collectionPath idPropName
                      (filter (\<lambda>item. r_target item = target) (relations (metadataStorage w)))
                      data index)
                   rels st
            else (None, st)) of
        (Some e, st') \<Rightarrow> (Inl e, st')
      | (None, st') \<Rightarrow>
          (case docsLoop w this target collectionPath idPropName rels (Suc index) rest st' of
             (Inl e, st'') \<Rightarrow> (Inl e, st'')
           | (Inr datas, st'') \<Rightarrow> (Inr (Some data # datas), st'')))"

text \<open>
  \<open>relationCacheData\<close>: the data of every document fetch that found its document (the
  client builds a QueryDocumentSnapshot exactly for an existing document), and the list
  of the documents' data for every query.
\<close>

fun relationCacheData :: "(string \<times> fetched) list \<Rightarrow> (string \<times> jsval) list" where
  "relationCacheData [] = []"
| "relationCacheData ((key, FetchedDoc snap) # rest) =
     (if snap_exists snap then (key, JObj (snap_data snap)) # relationCacheData rest
      else relationCacheData rest)"
| "relationCacheData ((key, FetchedQuery docs) # rest) =
     (key, JArr (map (\<lambda>doc. JObj (snap_data doc)) docs)) # relationCacheData rest"

text \<open>
  The splice. The two calls into the dot-object library are taken at their documented
  meaning: \<open>dot.dot(relationDocMapping)\<close> flattens the array of objects to the entries
  \<open>index.relation \<mapsto> path\<close>, and \<open>dot.set(key, value, datas)\<close> writes the value at
  \<open>datas[index][relation]\<close> (making the object on the way when there is none). An entry
  is written when \<open>relationCacheData\<close> has data for its path. The mapping is never
  longer than the list of documents, so the second equation of \<open>spliceRelations\<close> is
  there for totality only.
\<close>

fun spliceDoc :: "(string \<times> jsval) list \<Rightarrow> (string \<times> string) list \<Rightarrow> fields \<Rightarrow> fields" where
  "spliceDoc cacheData [] data = data"
| "spliceDoc cacheData ((relation, path) # rest) data =
     spliceDoc cacheData rest
       (case map_of cacheData path of
          None \<Rightarrow> data
        | Some v \<Rightarrow> obj_set data relation v)"

fun spliceRelations ::
  "(string \<times> jsval) list \<Rightarrow> (string \<times> string) list list \<Rightarrow> fields option list \<Rightarrow> fields option list" where
  "spliceRelations cacheData [] datas = datas"
| "spliceRelations cacheData (m # ms) [] = []"
| "spliceRelations cacheData (m # ms) (Some data # datas) =
     Some (spliceDoc cacheData m data) # spliceRelations cacheData ms datas"
| "spliceRelations cacheData (m # ms) (None # datas) =
     (if spliceDoc cacheData m [] = [] then None else Some (spliceDoc cacheData m []))
     # spliceRelations cacheData ms datas"

text \<open>
  \<open>loadRelations\<close> returns the entities (null where the document was null) or the
  error thrown, and with either the relation reads it issued, in order.
\<close>

definition loadRelations ::
  "World \<Rightarrow> CollectionQuery \<Rightarrow> func \<Rightarrow> DocumentSnapshot option list \<Rightarrow> string list \<Rightarrow>
   (error + fields option list) \<times> (string \<times> request) list" where
  "loadRelations w this target docs rels =
     (case getIdPropName (metadataStorage w) target of
        Inl e \<Rightarrow> (Inl e, [])
      | Inr idPropName \<Rightarrow>
          (case getCollectionPath (metadataStorage w) target of
             Inl e \<Rightarrow> (Inl e, [])
           | Inr collectionPath \<Rightarrow>
               (case docsLoop w this target collectionPath idPropName rels 0 docs emptyRelState of
                  (Inl e, st) \<Rightarrow> (Inl e, fetches st)
                | (Inr datas, st) \<Rightarrow>
                    (Inr (map (map_option (transformToClass w target))
                            (if mapping st \<noteq> []
                             then spliceRelations (relationCacheData (cache st)) (mapping st) datas
                             else datas)),
                     fetches st))))"

subsection \<open>Building the query\<close>

definition getQuery :: "World \<Rightarrow> CollectionQuery \<Rightarrow> func \<Rightarrow> error + Query" where
  "getQuery w this target =
     (if truthy_str (collectionId (options this))
      then Inr \<lparr>q_source = CollectionGroupOf (the (collectionId (options this))), q_steps = []\<rparr>
      else if truthy_str (parentPath (options this))
      then Inr \<lparr>q_source = CollectionAt (the (parentPath (options this))), q_steps = []\<rparr>
      else (case getCollectionPath (metadataStorage w) target of
              Inl e \<Rightarrow> Inl e
            | Inr collectionPath \<Rightarrow> Inr \<lparr>q_source = CollectionAt collectionPath, q_steps = []\<rparr>))"

text \<open>
  \<open>getDocumentRef\<close>: the path of \<open>firestore.collection(collectionPath).doc(id)\<close>, or
  the error of the registry or of the client.
\<close>

definition getDocumentRef :: "World \<Rightarrow> CollectionQuery \<Rightarrow> func \<Rightarrow> string \<Rightarrow> error + string" where
  "getDocumentRef w this target ident =
     (case getCollectionPath (metadataStorage w) target of
        Inl e \<Rightarrow> Inl e
      | Inr collectionPath \<Rightarrow> clientDoc collectionPath ident)"

text \<open>\<open>Object.keys(where).forEach(...)\<close>, ended by the first throw.\<close>

fun forEachKey :: "(Query \<Rightarrow> string \<Rightarrow> error + Query) \<Rightarrow> string list \<Rightarrow> Query \<Rightarrow> error + Query" where
  "forEachKey step [] q = Inr q"
| "forEachKey step (fieldPath # rest) q =
     (case step q fieldPath of
        Inl e \<Rightarrow> Inl e
      | Inr q' \<Rightarrow> forEachKey step rest q')"

text \<open>The two branches find and findOne share: an operator object, or plain equality.\<close>

definition plainWhere :: "Query \<Rightarrow> string \<Rightarrow> jsval \<Rightarrow> error + Query" where
  "plainWhere q fieldPath v =
     (case get_prop v ''type'' of
        Inl e \<Rightarrow> Inl e
      | Inr t \<Rightarrow>
          (if truthy t
           then (case get_prop v ''value'' of
                   Inl e \<Rightarrow> Inl e
                 | Inr x \<Rightarrow> Inr (addStep q (QWhere fieldPath t x)))
           else Inr (addStep q (QWhere fieldPath (JStr ''=='') v))))"

text \<open>The body of the where loop of \<open>find\<close> (source lines 225 to 235).\<close>

definition findWhereStep ::
  "World \<Rightarrow> RelationMetadataArgs list \<Rightarrow> fields \<Rightarrow> Query \<Rightarrow> string \<Rightarrow> error + Query" where
  "findWhereStep w relationMetadatas wh q fieldPath =
     (case List.find (\<lambda>item. r_propertyName item = fieldPath) relationMetadatas of
        Some relationMetadata \<Rightarrow>
          (if \<not> is_ref (obj_get wh fieldPath)
           then (case getCollectionPath (metadataStorage w) (r_type relationMetadata) of
                   Inl e \<Rightarrow> Inl e
                 | Inr relationCollectionPath \<Rightarrow>
                     Inr (addStep q (QWhere fieldPath (JStr ''=='')
                            (JRef (relationCollectionPath @ ''/'' @ to_str (obj_get wh fieldPath))))))
           else plainWhere q fieldPath (obj_get wh fieldPath))
      | None \<Rightarrow> plainWhere q fieldPath (obj_get wh fieldPath))"

text \<open>The body of the where loop of \<open>findOne\<close> (source lines 340 to 350).\<close>

definition findOneWhereStep ::
  "World \<Rightarrow> RelationMetadataArgs list \<Rightarrow> fields \<Rightarrow> Query \<Rightarrow> string \<Rightarrow> error + Query" where
  "findOneWhereStep w relationMetadatas wh q fieldPath =
     (case List.find (\<lambda>item. r_propertyName item = fieldPath) relationMetadatas of
        Some relationMetadata \<Rightarrow>
          (case callType (r_type relationMetadata) of
             Inl e \<Rightarrow> Inl e
           | Inr cls \<Rightarrow>
               (case getCollectionPath (metadataStorage w) cls of
                  Inl e \<Rightarrow> Inl e
                | Inr relationCollectionPath \<Rightarrow>
                    Inr (addStep q (QWhere fieldPath (JStr ''=='')
                           (JRef (relationCollectionPath @ ''/'' @ to_str (obj_get wh fieldPath)))))))
      | None \<Rightarrow> plainWhere q fieldPath (obj_get wh fieldPath))"

definition optSteps :: "'a option \<Rightarrow> ('a \<Rightarrow> qstep list) \<Rightarrow> qstep list" where
  "optSteps x f = (case x of None \<Rightarrow> [] | Some v \<Rightarrow> f v)"

text \<open>The builder calls \<open>find\<close> makes for an options object, in its order.\<close>

definition findManySteps :: "FindOptions \<Rightarrow> qstep list" where
  "findManySteps opts =
     optSteps (o_select opts) (\<lambda>s. [QSelect s])
     @ optSteps (o_order opts) (map (\<lambda>kv. QOrderBy (fst kv) (snd kv)))
     @ optSteps (o_limit opts) (\<lambda>n. if n \<noteq> 0 then [QLimit n] else [])
     @ optSteps (o_offset opts) (\<lambda>n. if n \<noteq> 0 then [QOffset n] else [])
     @ optSteps (o_startAfter opts) (\<lambda>c. [QStartAfter c])
     @ optSteps (o_startAt opts) (\<lambda>c. [QStartAt c])
     @ optSteps (o_endBefore opts) (\<lambda>c. [QEndBefore c])
     @ optSteps (o_endAt opts) (\<lambda>c. [QEndAt c])"

text \<open>The builder calls \<open>findOne\<close> makes for an options object, in its order.\<close>

definition findOneSteps :: "FindOptions \<Rightarrow> qstep list" where
  "findOneSteps opts =
     optSteps (o_select opts) (\<lambda>s. [QSelect s])
     @ optSteps (o_startAfter opts) (\<lambda>c. [QStartAfter c])
     @ optSteps (o_startAt opts) (\<lambda>c. [QStartAt c])
     @ optSteps (o_endBefore opts) (\<lambda>c. [QEndBefore c])
     @ optSteps (o_endAt opts) (\<lambda>c. [QEndAt c])
     @ optSteps (o_order opts) (map (\<lambda>kv. QOrderBy (fst kv) (snd kv)))"

definition relationsOf :: "find_arg \<Rightarrow> string list" where
  "relationsOf optionsOrConditions =
     (case optionsOrConditions of
        Options opts \<Rightarrow> (case o_relations opts of None \<Rightarrow> [] | Some r \<Rightarrow> r)
      | _ \<Rightarrow> [])"

text \<open>
  The query \<open>find\<close> runs: \<open>getQuery\<close>, the where loop, then the option calls.
\<close>

definition findQuery :: "World \<Rightarrow> CollectionQuery \<Rightarrow> func \<Rightarrow> find_arg \<Rightarrow> error + Query" where
  "findQuery w this target optionsOrConditions =
     (case getQuery w this target of
        Inl e \<Rightarrow> Inl e
      | Inr selfQuery \<Rightarrow>
          (case (case getFindConditionsFromFindManyOptions optionsOrConditions of
                   None \<Rightarrow> Inr selfQuery
                 | Some wh \<Rightarrow>
                     forEachKey
                       (findWhereStep w
                          (filter (\<lambda>item. r_target item = target) (relations (metadataStorage w)))
                          wh)
                       (map fst wh) selfQuery) of
             Inl e \<Rightarrow> Inl e
           | Inr q \<Rightarrow>
               Inr (case optionsOrConditions of
                      Options opts \<Rightarrow> addSteps q (findManySteps opts)
                    | _ \<Rightarrow> q)))"

text \<open>
  Every operation of the class returns what its promise settles to (\<open>Inl\<close> the
  rejection) together with the reads it issued against the store, in order.
\<close>

definition find_cq ::
  "World \<Rightarrow> CollectionQuery \<Rightarrow> func \<Rightarrow> find_arg \<Rightarrow> (error + fields option list) \<times> request list" where
  "find_cq w this target optionsOrConditions =
     (case findQuery w this target optionsOrConditions of
        Inl e \<Rightarrow> (Inl e, [])
      | Inr selfQuery \<Rightarrow>
          (case loadRelations w this target
                  (map Some (fs_run (firestore this) selfQuery))
                  (relationsOf optionsOrConditions) of
             (r, log) \<Rightarrow> (r, QueryGet (tnx (options this)) selfQuery # map snd log)))"

subsection \<open>Pagination tokens\<close>

text \<open>
  The payload of a token: the query shape and the id of the last document. The token
  library is outside the program; a token is modelled by the secret it was signed with
  and its payload, and any other string by \<open>Garbage\<close>. Verification succeeds exactly
  for a token signed with the same secret.
\<close>

record TokenPayload =
  t_where :: "fields option"
  t_select :: "string list option"
  t_order :: "(string \<times> string) list option"
  t_limit :: "nat option"
  t_lastDocumentId :: jsval

datatype token = Signed string TokenPayload | Garbage string

definition jwt_sign :: "TokenPayload \<Rightarrow> string \<Rightarrow> token" where
  "jwt_sign payload secret = Signed secret payload"

definition jwt_verify :: "token \<Rightarrow> string \<Rightarrow> TokenPayload option" where
  "jwt_verify tok secret =
     (case tok of
        Signed k payload \<Rightarrow> (if k = secret then Some payload else None)
      | Garbage s \<Rightarrow> None)"

text \<open>\<open>tokenObj\<close> as \<open>findAndToken\<close> fills it before the query runs.\<close>

definition tokenObjOf :: "find_arg \<Rightarrow> TokenPayload" where
  "tokenObjOf optionsOrConditions =
     \<lparr>t_where = getFindConditionsFromFindManyOptions optionsOrConditions,
      t_select = (case optionsOrConditions of Options opts \<Rightarrow> o_select opts | _ \<Rightarrow> None),
      t_order = (case optionsOrConditions of Options opts \<Rightarrow> o_order opts | _ \<Rightarrow> None),
      t_limit = (case optionsOrConditions of
                   Options opts \<Rightarrow>
                     (case o_limit opts of
                        None \<Rightarrow> None
                      | Some n \<Rightarrow> (if n \<noteq> 0 then Some n else None))
                 | _ \<Rightarrow> None),
      t_lastDocumentId = JUndefined\<rparr>"

definition findAndToken ::
  "World \<Rightarrow> CollectionQuery \<Rightarrow> func \<Rightarrow> find_arg \<Rightarrow>
   (error + token option \<times> fields option list) \<times> request list" where
  "findAndToken w this target optionsOrConditions =
     (let tokenObj = tokenObjOf optionsOrConditions in
      case find_cq w this target optionsOrConditions of
        (Inl e, log) \<Rightarrow> (Inl e, log)
      | (Inr documents, log) \<Rightarrow>
          (if t_limit tokenObj = None \<or> t_order tokenObj = None
              \<or> the (t_limit tokenObj) > length documents
           then (Inr (None, documents), log)
           else (case getIdPropName (metadataStorage w) target of
                   Inl e \<Rightarrow> (Inl e, log)
                 | Inr idPropName \<Rightarrow>
                     (if documents = [] then (Inl TypeError, log)
                      else (case last documents of
                              None \<Rightarrow> (Inl TypeError, log)
                            | Some lastDocument \<Rightarrow>
                                (Inr (Some (jwt_sign
                                        (tokenObj\<lparr>t_lastDocumentId :=
                                                    obj_get lastDocument idPropName\<rparr>)
                                        ''fireorm''),
                                      documents),
                                 log))))))"

text \<open>The options \<open>findByToken\<close> passes on: the payload's shape and the cursor.\<close>

definition resumeOptions :: "TokenPayload \<Rightarrow> DocumentSnapshot \<Rightarrow> FindOptions" where
  "resumeOptions other startAfter =
     \<lparr>o_where = t_where other, o_select = t_select other, o_order = t_order other,
      o_limit = t_limit other, o_offset = None,
      o_startAfter = Some [CursorSnapshot startAfter],
      o_startAt = None, o_endBefore = None, o_endAt = None, o_relations = None\<rparr>"

text \<open>
  \<open>findByToken\<close>. Only the verification and the test of \<open>lastDocumentId\<close> are inside
  the \<open>try\<close>; an error of \<open>getDocumentRef\<close> is passed on as it is. The client's
  \<open>doc(id)\<close> takes a string and refuses any other value (InvalidArgument).
\<close>

definition findByToken ::
  "World \<Rightarrow> CollectionQuery \<Rightarrow> func \<Rightarrow> token \<Rightarrow>
   (error + token option \<times> fields option list) \<times> request list" where
  "findByToken w this target tok =
     (case jwt_verify tok ''fireorm'' of
        None \<Rightarrow> (Inl InvalidPaginationToken, [])
      | Some tokenObj \<Rightarrow>
          (if \<not> truthy (t_lastDocumentId tokenObj) then (Inl InvalidPaginationToken, [])
           else (case t_lastDocumentId tokenObj of
                   JStr lastDocumentId \<Rightarrow>
                     (case getDocumentRef w this target lastDocumentId of
                        Inl e \<Rightarrow> (Inl e, [])
                      | Inr path \<Rightarrow>
                          (let startAfter = getDoc (firestore this) path in
                           if \<not> snap_exists startAfter
                           then (Inl InvalidPaginationToken, [DocGet path])
                           else (case findAndToken w this target
                                        (Options (resumeOptions tokenObj startAfter)) of
                                   (r, log) \<Rightarrow> (r, DocGet path # log))))
                 | _ \<Rightarrow> (Inl InvalidArgument, []))))"

subsection \<open>findOne, findOneOrFail, findByIds\<close>

text \<open>What \<open>entities[0]\<close> can be: undefined, null or an entity.\<close>

datatype 'a jsopt = Undefined | Null | Value 'a

definition firstOf :: "'a option list \<Rightarrow> 'a jsopt" where
  "firstOf entities =
     (case entities of
        [] \<Rightarrow> Undefined
      | None # rest \<Rightarrow> Null
      | Some e # rest \<Rightarrow> Value e)"

definition findOneQuery :: "World \<Rightarrow> CollectionQuery \<Rightarrow> func \<Rightarrow> find_arg \<Rightarrow> error + Query" where
  "findOneQuery w this target optionsOrConditions =
     (case getQuery w this target of
        Inl e \<Rightarrow> Inl e
      | Inr selfQuery \<Rightarrow>
          (case (case getFindConditionsFromFindOneOptions optionsOrConditions of
                   None \<Rightarrow> Inr selfQuery
                 | Some wh \<Rightarrow>
                     forEachKey
                       (findOneWhereStep w
                          (filter (\<lambda>item. r_target item = target) (relations (metadataStorage w)))
                          wh)
                       (map fst wh) selfQuery) of
             Inl e \<Rightarrow> Inl e
           | Inr q \<Rightarrow>
               Inr (case optionsOrConditions of
                      Options opts \<Rightarrow> addSteps q (findOneSteps opts)
                    | _ \<Rightarrow> q)))"

definition findOne ::
  "World \<Rightarrow> CollectionQuery \<Rightarrow> func \<Rightarrow> find_arg \<Rightarrow> (error + fields jsopt) \<times> request list" where
  "findOne w this target optionsOrConditions =
     (case findOneQuery w this target optionsOrConditions of
        Inl e \<Rightarrow> (Inl e, [])
      | Inr selfQuery \<Rightarrow>
          (let limited = addStep selfQuery (QLimit 1);
               docs = fs_run (firestore this) limited;
               get = QueryGet (tnx (options this)) limited
           in if docs = [] \<or> \<not> snap_exists (hd docs) then (Inr Undefined, [get])
              else (case loadRelations w this target (map Some docs)
                           (relationsOf optionsOrConditions) of
                      (Inl e, log) \<Rightarrow> (Inl e, get # map snd log)
                    | (Inr entities, log) \<Rightarrow> (Inr (firstOf entities), get # map snd log))))"

definition findOneOrFail ::
  "World \<Rightarrow> CollectionQuery \<Rightarrow> func \<Rightarrow> find_arg \<Rightarrow> (error + fields jsopt) \<times> request list" where
  "findOneOrFail w this target optionsOrConditions =
     (case findOne w this target optionsOrConditions of
        (Inl e, log) \<Rightarrow> (Inl e, log)
      | (Inr v, log) \<Rightarrow>
          (if v = Undefined then (Inl (EntityNotFound target), log) else (Inr v, log)))"

datatype id_arg = OneId string | ManyIds "string list"

datatype ids_result = Single "fields jsopt" | Many "fields option list"

definition findByIds ::
  "World \<Rightarrow> CollectionQuery \<Rightarrow> func \<Rightarrow> id_arg \<Rightarrow> FindOptions option \<Rightarrow>
   (error + ids_result) \<times> request list" where
  "findByIds w this target idOrIds opts =
     (if truthy_str (collectionId (options this))
      then (Inl FindByIdsNotSupportCollectionGroup, [])
      else (case (if truthy_str (parentPath (options this))
                  then Inr (the (parentPath (options this)))
                  else getCollectionPath (metadataStorage w) target) of
              Inl e \<Rightarrow> (Inl e, [])
            | Inr collectionPath \<Rightarrow>
                (let idList = (case idOrIds of ManyIds xs \<Rightarrow> xs | OneId x \<Rightarrow> [x]);
                     docRefs = map (\<lambda>i. collectionPath @ ''/'' @ i) idList;
                     docSnapshots = map (getDoc (firestore this)) docRefs;
                     filterSnapShot = map (\<lambda>v. if snap_exists v then Some v else None) docSnapshots;
                     rels = (case opts of
                               None \<Rightarrow> []
                             | Some fo \<Rightarrow> (case o_relations fo of None \<Rightarrow> [] | Some r \<Rightarrow> r));
                     get = GetAll (tnx (options this)) docRefs
                 in case idOrIds of
                      ManyIds xs \<Rightarrow>
                        (case loadRelations w this target filterSnapShot rels of
                           (Inl e, log) \<Rightarrow> (Inl e, get # map snd log)
                         | (Inr entities, log) \<Rightarrow> (Inr (Many entities), get # map snd log))
                    | OneId x \<Rightarrow>
                        (if filterSnapShot = [] then (Inr (Single Undefined), [get])
                         else (case loadRelations w this target filterSnapShot rels of
                                 (Inl e, log) \<Rightarrow> (Inl e, get # map snd log)
                               | (Inr entities, log) \<Rightarrow>
                                   (Inr (Single (firstOf entities)), get # map snd log))))))"

subsection \<open>Notions used to state the properties\<close>

text \<open>
  The path a relation read is for: a document read is for its own path; a relation
  query (\<open>where(inverseSide, '==', doc(documentPath))\<close>) is for the document path it
  compares with.
\<close>

definition requestPath :: "request \<Rightarrow> string option" where
  "requestPath r =
     (case r of
        DocGet path \<Rightarrow> Some path
      | QueryGet t q \<Rightarrow>
          (case q_steps q of
             [QWhere f op (JRef path)] \<Rightarrow> Some path
           | _ \<Rightarrow> None)
      | GetAll t paths \<Rightarrow> None)"

text \<open>What the store answers to a relation read.\<close>

definition answer :: "Firestore \<Rightarrow> request \<Rightarrow> fetched option" where
  "answer fs r =
     (case r of
        DocGet path \<Rightarrow> Some (FetchedDoc (getDoc fs path))
      | QueryGet t q \<Rightarrow> Some (FetchedQuery (fs_run fs q))
      | GetAll t paths \<Rightarrow> None)"

text \<open>
  What holds of the state of \<open>loadRelations\<close> all along: the cache holds, key by key
  and in the same order, the store's answers to the reads issued; no key is there
  twice; every read is for its key; no mapping object holds a relation name twice; and
  every path a mapping object holds is a key of the cache.
\<close>

definition relInv :: "Firestore \<Rightarrow> RelState \<Rightarrow> bool" where
  "relInv fs st =
     (map (\<lambda>kr. (fst kr, answer fs (snd kr))) (fetches st)
        = map (\<lambda>kf. (fst kf, Some (snd kf))) (cache st)
      \<and> distinct (map fst (cache st))
      \<and> list_all (\<lambda>kr. requestPath (snd kr) = Some (fst kr)) (fetches st)
      \<and> list_all (\<lambda>m. distinct (map fst m)) (mapping st)
      \<and> list_all (\<lambda>m. list_all (\<lambda>rp. snd rp \<in> fst ` set (cache st)) m) (mapping st))"

text \<open>
  The data \<open>loadRelations\<close> makes of a document, and the path it maps a relation name of
  that document to (\<open>relationDocMapping[index][relation]\<close>): for a many-to-one relation
  the path of the reference the field holds, for a one-to-many relation the path of the
  document itself; none for any other name.
\<close>

definition dataOf :: "string \<Rightarrow> DocumentSnapshot \<Rightarrow> fields" where
  "dataOf idPropName doc = obj_set (snap_data doc) idPropName (JStr (snap_id doc))"

definition relationPath ::
  "RelationMetadataArgs list \<Rightarrow> string \<Rightarrow> string \<Rightarrow> fields \<Rightarrow> string \<Rightarrow> string option" where
  "relationPath relationMetadataArgs collectionPath idPropName data relation =
     (case List.find (\<lambda>item. r_propertyName item = relation) relationMetadataArgs of
        None \<Rightarrow> None
      | Some relationMetadataArg \<Rightarrow>
          (case r_relationType relationMetadataArg of
             ManyToOne \<Rightarrow> (case obj_get data relation of JRef path \<Rightarrow> Some path | _ \<Rightarrow> None)
           | OneToMany \<Rightarrow> Some (collectionPath @ ''/'' @ to_str (obj_get data idPropName))
           | OneToOne \<Rightarrow> None))"

text \<open>The errors that come from the registry or the runtime, not from a query method.\<close>

definition lowError :: "error \<Rightarrow> bool" where
  "lowError e = (e = CollectionNotFound \<or> e = IdPerpertyNotFound \<or> e = TypeError)"

section \<open>A small registry and store\<close>

text \<open>
  Three classes, as their decorators would register them: users, posts whose
  \<open>author\<close> is a many-to-one relation to a user, and users whose \<open>posts\<close> is the
  one-to-many inverse. Relation types are lazy thunks.
\<close>

definition userCollection :: CollectionMetadataArgs where
  "userCollection = \<lparr>c_name = ''users'', c_target = Class ''User'', c_options = \<lparr>prefix = None\<rparr>\<rparr>"

definition postCollection :: CollectionMetadataArgs where
  "postCollection = \<lparr>c_name = ''posts'', c_target = Class ''Post'', c_options = \<lparr>prefix = None\<rparr>\<rparr>"

definition userId :: IdPropertyMetadataArgs where
  "userId = \<lparr>id_target = Class ''User'', id_propertyName = ''id'', id_strategy = Auto\<rparr>"

definition postId :: IdPropertyMetadataArgs where
  "postId = \<lparr>id_target = Class ''Post'', id_propertyName = ''id'', id_strategy = UuidV4\<rparr>"

definition postSlug :: IdPropertyMetadataArgs where
  "postSlug = \<lparr>id_target = Class ''Post'', id_propertyName = ''slug'', id_strategy = Auto\<rparr>"

definition postAuthor :: RelationMetadataArgs where
  "postAuthor = \<lparr>r_target = Class ''Post'', r_propertyName = ''author'',
                  r_relationType = ManyToOne, r_lazy = True, r_type = Thunk ''User'',
                  r_inverseSide = []\<rparr>"

definition userPosts :: RelationMetadataArgs where
  "userPosts = \<lparr>r_target = Class ''User'', r_propertyName = ''posts'',
                 r_relationType = OneToMany, r_lazy = True, r_type = Thunk ''Post'',
                 r_inverseSide = ''author''\<rparr>"

definition exampleStorage :: MetadataStorage where
  "exampleStorage =
     \<lparr>collections = [userCollection, postCollection],
      ids = [userId, postId],
      properties = [],
      relations = [postAuthor, userPosts]\<rparr>"

text \<open>The collection a document path lies in.\<close>

definition parent_path :: "string \<Rightarrow> string" where
  "parent_path path = rev (tl (dropWhile (\<lambda>c. c \<noteq> CHR ''/'') (rev path)))"

text \<open>
  A store that holds a list of documents. A query returns the documents of its
  collection (or of every collection with the group's id) in the order of the list,
  after the cursor document if the query has one, and at most as many as its limit.
\<close>

definition inSource :: "source \<Rightarrow> string \<Rightarrow> bool" where
  "inSource src path =
     (case src of
        CollectionAt c \<Rightarrow> parent_path path = c
      | CollectionGroupOf g \<Rightarrow> ref_id (parent_path path) = g)"

fun applyCursor :: "DocumentSnapshot list \<Rightarrow> qstep \<Rightarrow> DocumentSnapshot list" where
  "applyCursor docs (QStartAfter [CursorSnapshot c]) =
     (if snap_path c \<in> set (map snap_path docs)
      then tl (dropWhile (\<lambda>d. snap_path d \<noteq> snap_path c) docs)
      else docs)"
| "applyCursor docs s = docs"

fun applyLimit :: "DocumentSnapshot list \<Rightarrow> qstep \<Rightarrow> DocumentSnapshot list" where
  "applyLimit docs (QLimit n) = take n docs"
| "applyLimit docs s = docs"

definition storeOf :: "(string \<times> fields) list \<Rightarrow> Firestore" where
  "storeOf documents =
     \<lparr>fs_doc = map_of documents,
      fs_run = (\<lambda>q. foldl applyLimit
                  (foldl applyCursor
                     (map (\<lambda>kv. \<lparr>snap_id = ref_id (fst kv), snap_path = fst kv,
                                   snap_exists = True, snap_data = snd kv\<rparr>)
                        (filter (\<lambda>kv. inSource (q_source q) (fst kv)) documents))
                     (q_steps q))
                  (q_steps q))\<rparr>"

definition exampleStore :: Firestore where
  "exampleStore = storeOf
     [(''users/u1'', [(''name'', JStr ''Ann'')]),
      (''posts/p1'', [(''title'', JStr ''A''), (''author'', JRef ''users/u1'')]),
      (''posts/p2'', [(''title'', JStr ''B''), (''author'', JRef ''users/u1'')]),
      (''users/u1/drafts/d1'', [(''title'', JStr ''C'')]),
      (''users/u1/drafts/d2'', [(''title'', JStr ''D'')])]"

definition exampleWorld :: World where
  "exampleWorld = \<lparr>metadataStorage = exampleStorage, plainToClass = (\<lambda>target obj. obj)\<rparr>"

text \<open>Three query objects: over the class's own collection, over a sub-collection
  given as parent path, and one constructed with an empty collection id.\<close>

definition rootQuery :: CollectionQuery where
  "rootQuery = \<lparr>firestore = exampleStore,
                 options = \<lparr>collectionId = None, parentPath = None, tnx = False\<rparr>\<rparr>"

definition draftsQuery :: CollectionQuery where
  "draftsQuery = \<lparr>firestore = exampleStore,
                   options = \<lparr>collectionId = None, parentPath = Some ''users/u1/drafts'',
                              tnx = False\<rparr>\<rparr>"

definition emptyGroupQuery :: CollectionQuery where
  "emptyGroupQuery = \<lparr>firestore = exampleStore,
                       options = \<lparr>collectionId = Some [], parentPath = None, tnx = False\<rparr>\<rparr>"

definition groupQuery :: CollectionQuery where
  "groupQuery = \<lparr>firestore = exampleStore,
                  options = \<lparr>collectionId = Some ''drafts'', parentPath = None, tnx = False\<rparr>\<rparr>"

definition noOptions :: FindOptions where
  "noOptions = \<lparr>o_where = None, o_select = None, o_order = None, o_limit = None,
                 o_offset = None, o_startAfter = None, o_startAt = None,
                 o_endBefore = None, o_endAt = None, o_relations = None\<rparr>"

text \<open>The two posts as a query over \<open>posts\<close> returns them.\<close>

definition examplePosts :: "DocumentSnapshot option list" where
  "examplePosts =
     [Some \<lparr>snap_id = ''p1'', snap_path = ''posts/p1'', snap_exists = True,
            snap_data = [(''title'', JStr ''A''), (''author'', JRef ''users/u1'')]\<rparr>,
      Some \<lparr>snap_id = ''p2'', snap_path = ''posts/p2'', snap_exists = True,
            snap_data = [(''title'', JStr ''B''), (''author'', JRef ''users/u1'')]\<rparr>]"

text \<open>Options that ask for pages of one post, options with a limit of zero, and
  options that ask for the author relation.\<close>

definition pageOptions :: FindOptions where
  "pageOptions = noOptions\<lparr>o_order := Some [(''title'', ''asc'')], o_limit := Some 1\<rparr>"

definition zeroLimitOptions :: FindOptions where
  "zeroLimitOptions = noOptions\<lparr>o_order := Some [(''title'', ''asc'')], o_limit := Some 0\<rparr>"

definition authorOptions :: FindOptions where
  "authorOptions = noOptions\<lparr>o_relations := Some [''author'']\<rparr>"

section \<open>The registry: lookups and their errors\<close>

lemma find_Some_D: "List.find P xs = Some x \<Longrightarrow> x \<in> set xs \<and> P x"
  by (auto simp: find_Some_iff)

lemma find_append_cases:
  "List.find P (xs @ ys) = (case List.find P xs of None \<Rightarrow> List.find P ys | Some x \<Rightarrow> Some x)"
  by (induction xs) simp_all

lemma registerId_distinct:
  "distinct (map id_target (ids st)) \<Longrightarrow> distinct (map id_target (ids (registerId st idProp)))"
  by (auto simp: registerId_def find_None_iff split: option.splits)

lemma foldl_registerId_distinct:
  "distinct (map id_target (ids st))
   \<Longrightarrow> distinct (map id_target (ids (foldl registerId st regs)))"
  by (induction regs arbitrary: st) (simp_all add: registerId_distinct)

lemma foldl_registerId_find:
  "List.find (\<lambda>entry. id_target entry = target) (ids (foldl registerId st regs))
     = List.find (\<lambda>entry. id_target entry = target) (ids st @ regs)"
proof (induction regs arbitrary: st)
  case Nil
  then show ?case by simp
next
  case (Cons a regs)
  show ?case
  proof (cases "List.find (\<lambda>entry. id_target entry = id_target a) (ids st)")
    case None
    then have "ids (registerId st a) = ids st @ [a]" by (simp add: registerId_def)
    with Cons [of "registerId st a"] show ?thesis by simp
  next
    case (Some entry)
    then have same: "registerId st a = st" by (simp add: registerId_def)
    from Some have hit: "entry \<in> set (ids st)" "id_target entry = id_target a"
      by (auto dest: find_Some_D)
    show ?thesis
    proof (cases "List.find (\<lambda>entry. id_target entry = target) (ids st)")
      case None
      with hit have "id_target a \<noteq> target" by (auto simp: find_None_iff)
      with None Cons [of st] same show ?thesis by (simp add: find_append_cases)
    next
      case found: (Some x)
      with Cons [of st] same show ?thesis by (simp add: find_append_cases)
    qed
  qed
qed

lemma filter_distinct_key:
  "distinct (map f xs) \<Longrightarrow>
   filter (\<lambda>x. f x = t) xs = (case List.find (\<lambda>x. f x = t) xs of None \<Rightarrow> [] | Some x \<Rightarrow> [x])"
proof (induction xs)
  case Nil
  then show ?case by simp
next
  case (Cons a xs)
  show ?case
  proof (cases "f a = t")
    case True
    with Cons.prems have "f a \<notin> f ` set xs" by simp
    with True have "filter (\<lambda>x. f x = t) xs = []"
      by (auto simp: filter_empty_conv image_iff)
    with True show ?thesis by simp
  next
    case False
    with Cons show ?thesis by simp
  qed
qed

text \<open>
  C7: after any sequence of id registrations on the fresh registry, the \<open>ids\<close> list
  holds at most one entry for any class: the entries of a class are exactly the one
  entry \<open>getIdProp\<close> returns, or none when it throws. That entry is the first
  registration made for the class, so \<open>getIdProp\<close>, \<open>getIdPropName\<close> and
  \<open>getIdGenerataValue\<close> are unambiguous for every registered class.
\<close>

theorem registry_has_one_id_per_class:
  "length (idsOf (foldl registerId newMetadataStorage regs) target) \<le> 1
   \<and> idsOf (foldl registerId newMetadataStorage regs) target
       = (case getIdProp (foldl registerId newMetadataStorage regs) target of
            Inl e \<Rightarrow> []
          | Inr primaryProp \<Rightarrow> [primaryProp])
   \<and> getIdProp (foldl registerId newMetadataStorage regs) target
       = (case List.find (\<lambda>idProp. id_target idProp = target) regs of
            None \<Rightarrow> Inl IdPerpertyNotFound
          | Some primaryProp \<Rightarrow> Inr primaryProp)
   \<and> getIdPropName (foldl registerId newMetadataStorage regs) target
       = (case List.find (\<lambda>idProp. id_target idProp = target) regs of
            None \<Rightarrow> Inl IdPerpertyNotFound
          | Some primaryProp \<Rightarrow> Inr (id_propertyName primaryProp))
   \<and> getIdGenerataValue uuid1 uuid4 (foldl registerId newMetadataStorage regs) target
       = (case List.find (\<lambda>idProp. id_target idProp = target) regs of
            None \<Rightarrow> Inl IdPerpertyNotFound
          | Some primaryProp \<Rightarrow>
              (case id_strategy primaryProp of
                 Custom s \<Rightarrow> Inr (Some s)
               | UuidV1 \<Rightarrow> Inr (Some uuid1)
               | UuidV4 \<Rightarrow> Inr (Some uuid4)
               | Auto \<Rightarrow> Inr None))"
proof -
  let ?st = "foldl registerId newMetadataStorage regs"
  have d: "distinct (map id_target (ids ?st))"
    by (rule foldl_registerId_distinct) (simp add: newMetadataStorage_def)
  have f: "List.find (\<lambda>entry. id_target entry = target) (ids ?st)
             = List.find (\<lambda>entry. id_target entry = target) regs"
    by (simp add: foldl_registerId_find newMetadataStorage_def)
  have one: "idsOf ?st target
       = (case List.find (\<lambda>entry. id_target entry = target) (ids ?st) of
            None \<Rightarrow> [] | Some x \<Rightarrow> [x])"
    unfolding idsOf_def using d by (rule filter_distinct_key)
  have 1: "length (idsOf ?st target) \<le> 1"
    unfolding one by (simp split: option.split)
  have 2: "idsOf ?st target
       = (case getIdProp ?st target of Inl e \<Rightarrow> [] | Inr primaryProp \<Rightarrow> [primaryProp])"
    unfolding one by (simp add: getIdProp_def split: option.split)
  have 3: "getIdProp ?st target
       = (case List.find (\<lambda>idProp. id_target idProp = target) regs of
            None \<Rightarrow> Inl IdPerpertyNotFound
          | Some primaryProp \<Rightarrow> Inr primaryProp)"
    by (simp add: getIdProp_def f)
  have 4: "getIdPropName ?st target
       = (case List.find (\<lambda>idProp. id_target idProp = target) regs of
            None \<Rightarrow> Inl IdPerpertyNotFound
          | Some primaryProp \<Rightarrow> Inr (id_propertyName primaryProp))"
    by (simp add: getIdPropName_def 3 split: option.split)
  have 5: "getIdGenerataValue uuid1 uuid4 ?st target
       = (case List.find (\<lambda>idProp. id_target idProp = target) regs of
            None \<Rightarrow> Inl IdPerpertyNotFound
          | Some primaryProp \<Rightarrow>
              (case id_strategy primaryProp of
                 Custom s \<Rightarrow> Inr (Some s)
               | UuidV1 \<Rightarrow> Inr (Some uuid1)
               | UuidV4 \<Rightarrow> Inr (Some uuid4)
               | Auto \<Rightarrow> Inr None))"
    by (simp add: getIdGenerataValue_def 3 split: option.split)
  from 1 2 3 4 5 show ?thesis by blast
qed

text \<open>
  For instance, a second id property registered for \<open>Post\<close> leaves the registry
  as it was.
\<close>

lemma second_id_registration_adds_nothing:
  "ids (foldl registerId newMetadataStorage [postId, postSlug, userId]) = [postId, userId]"
  by (simp add: registerId_def newMetadataStorage_def postId_def postSlug_def userId_def)

text \<open>
  C8: \<open>getCollection\<close> and \<open>getCollectionName\<close> throw CollectionNotFound exactly when no
  collection entry of the registry has the class as its target; \<open>getIdProp\<close>,
  \<open>getIdPropName\<close> and \<open>getIdGenerataValue\<close> throw IdPerpertyNotFound exactly when no id
  entry has it. When an entry is registered, the lookups return (an entry of that class,
  its name, a generated value) and do not throw.
\<close>

theorem missing_metadata_errors:
  "(getCollection st target = Inl CollectionNotFound
      \<longleftrightarrow> (\<forall>c \<in> set (collections st). c_target c \<noteq> target))
   \<and> (getCollectionName st target = Inl CollectionNotFound
      \<longleftrightarrow> (\<forall>c \<in> set (collections st). c_target c \<noteq> target))
   \<and> (getIdProp st target = Inl IdPerpertyNotFound
      \<longleftrightarrow> (\<forall>i \<in> set (ids st). id_target i \<noteq> target))
   \<and> (getIdPropName st target = Inl IdPerpertyNotFound
      \<longleftrightarrow> (\<forall>i \<in> set (ids st). id_target i \<noteq> target))
   \<and> (getIdGenerataValue uuid1 uuid4 st target = Inl IdPerpertyNotFound
      \<longleftrightarrow> (\<forall>i \<in> set (ids st). id_target i \<noteq> target))
   \<and> ((\<exists>c \<in> set (collections st). c_target c = target) \<longrightarrow>
        (\<exists>c. getCollection st target = Inr c \<and> c \<in> set (collections st) \<and> c_target c = target)
        \<and> (\<exists>n. getCollectionName st target = Inr n))
   \<and> ((\<exists>i \<in> set (ids st). id_target i = target) \<longrightarrow>
        (\<exists>i. getIdProp st target = Inr i \<and> i \<in> set (ids st) \<and> id_target i = target
             \<and> getIdPropName st target = Inr (id_propertyName i))
        \<and> (\<exists>v. getIdGenerataValue uuid1 uuid4 st target = Inr v))"
proof -
  have 1: "getCollection st target = Inl CollectionNotFound
      \<longleftrightarrow> (\<forall>c \<in> set (collections st). c_target c \<noteq> target)"
    by (auto simp: getCollection_def find_None_iff split: option.splits dest: find_Some_D)
  have 2: "getCollectionName st target = Inl CollectionNotFound
      \<longleftrightarrow> (\<forall>c \<in> set (collections st). c_target c \<noteq> target)"
    by (auto simp: getCollectionName_def find_None_iff split: option.splits dest: find_Some_D)
  have 3: "getIdProp st target = Inl IdPerpertyNotFound
      \<longleftrightarrow> (\<forall>i \<in> set (ids st). id_target i \<noteq> target)"
    by (auto simp: getIdProp_def find_None_iff split: option.splits dest: find_Some_D)
  have 4: "getIdPropName st target = Inl IdPerpertyNotFound
      \<longleftrightarrow> (\<forall>i \<in> set (ids st). id_target i \<noteq> target)"
    using 3 by (auto simp: getIdPropName_def split: sum.splits)
  have 5: "getIdGenerataValue uuid1 uuid4 st target = Inl IdPerpertyNotFound
      \<longleftrightarrow> (\<forall>i \<in> set (ids st). id_target i \<noteq> target)"
    using 3 by (auto simp: getIdGenerataValue_def split: sum.splits strategy.splits)
  have 6: "(\<exists>c \<in> set (collections st). c_target c = target) \<longrightarrow>
        (\<exists>c. getCollection st target = Inr c \<and> c \<in> set (collections st) \<and> c_target c = target)
        \<and> (\<exists>n. getCollectionName st target = Inr n)"
    by (auto simp: getCollection_def getCollectionName_def find_None_iff
        split: option.splits dest: find_Some_D)
  have 7: "(\<exists>i \<in> set (ids st). id_target i = target) \<longrightarrow>
        (\<exists>i. getIdProp st target = Inr i \<and> i \<in> set (ids st) \<and> id_target i = target
             \<and> getIdPropName st target = Inr (id_propertyName i))
        \<and> (\<exists>v. getIdGenerataValue uuid1 uuid4 st target = Inr v)"
    by (auto simp: getIdProp_def getIdPropName_def getIdGenerataValue_def find_None_iff
        split: option.splits strategy.splits dest: find_Some_D)
  from 1 2 3 4 5 6 7 show ?thesis by blast
qed

text \<open>
  C8 at the example registry: the unregistered class \<open>Ghost\<close> gets both errors,
  the registered class \<open>Post\<close> gets its metadata.
\<close>

theorem missing_metadata_errors_witness:
  "getCollection exampleStorage (Class ''Ghost'') = Inl CollectionNotFound
   \<and> getCollectionName exampleStorage (Class ''Ghost'') = Inl CollectionNotFound
   \<and> getIdProp exampleStorage (Class ''Ghost'') = Inl IdPerpertyNotFound
   \<and> getIdPropName exampleStorage (Class ''Ghost'') = Inl IdPerpertyNotFound
   \<and> getIdGenerataValue ''a'' ''b'' exampleStorage (Class ''Ghost'') = Inl IdPerpertyNotFound
   \<and> (\<exists>c. getCollection exampleStorage (Class ''Post'') = Inr c)
   \<and> (\<exists>n. getCollectionName exampleStorage (Class ''Post'') = Inr n)
   \<and> (\<exists>i. getIdProp exampleStorage (Class ''Post'') = Inr i)
   \<and> (\<exists>v. getIdGenerataValue ''a'' ''b'' exampleStorage (Class ''Post'') = Inr v)"
proof -
  have g1: "\<forall>c \<in> set (collections exampleStorage). c_target c \<noteq> Class ''Ghost''"
    by (simp add: exampleStorage_def userCollection_def postCollection_def)
  have g2: "\<forall>i \<in> set (ids exampleStorage). id_target i \<noteq> Class ''Ghost''"
    by (simp add: exampleStorage_def userId_def postId_def)
  have p1: "\<exists>c \<in> set (collections exampleStorage). c_target c = Class ''Post''"
    by (simp add: exampleStorage_def userCollection_def postCollection_def)
  have p2: "\<exists>i \<in> set (ids exampleStorage). id_target i = Class ''Post''"
    by (simp add: exampleStorage_def userId_def postId_def)
  from g1 g2 missing_metadata_errors [of exampleStorage "Class ''Ghost''" "''a''" "''b''"]
  have ghost: "getCollection exampleStorage (Class ''Ghost'') = Inl CollectionNotFound
   \<and> getCollectionName exampleStorage (Class ''Ghost'') = Inl CollectionNotFound
   \<and> getIdProp exampleStorage (Class ''Ghost'') = Inl IdPerpertyNotFound
   \<and> getIdPropName exampleStorage (Class ''Ghost'') = Inl IdPerpertyNotFound
   \<and> getIdGenerataValue ''a'' ''b'' exampleStorage (Class ''Ghost'') = Inl IdPerpertyNotFound"
    by blast
  from p1 p2 missing_metadata_errors [of exampleStorage "Class ''Post''" "''a''" "''b''"]
  have post: "(\<exists>c. getCollection exampleStorage (Class ''Post'') = Inr c)
   \<and> (\<exists>n. getCollectionName exampleStorage (Class ''Post'') = Inr n)
   \<and> (\<exists>i. getIdProp exampleStorage (Class ''Post'') = Inr i)
   \<and> (\<exists>v. getIdGenerataValue ''a'' ''b'' exampleStorage (Class ''Post'') = Inr v)"
    by blast
  from ghost post show ?thesis by blast
qed

section \<open>loadRelations: the cache and the splice\<close>

subsection \<open>What the loop keeps true\<close>

lemma relInv_empty: "relInv fs emptyRelState"
  by (simp add: relInv_def emptyRelState_def)

lemma set_alist_update: "set (AList.update k v al) \<subseteq> insert (k, v) (set al)"
  by (induction al) auto

lemma list_all_alist_update:
  "list_all (\<lambda>rp. snd rp \<in> K) al \<Longrightarrow> v \<in> K
   \<Longrightarrow> list_all (\<lambda>rp. snd rp \<in> K) (AList.update k v al)"
  by (induction al) auto

lemma list_all_list_update: "list_all P xs \<Longrightarrow> P x \<Longrightarrow> list_all P (xs[i := x])"
  by (auto simp: list_all_iff dest: set_update_subset_insert [THEN subsetD])

lemma keys_fetchOnce:
  "fst ` set (cache (fetchOnce key req res st)) = insert key (fst ` set (cache st))"
proof (cases "map_of (cache st) key = None")
  case True
  then show ?thesis by (simp add: fetchOnce_def)
next
  case False
  then have "key \<in> fst ` set (cache st)" by (simp add: map_of_eq_None_iff)
  with False show ?thesis by (simp add: fetchOnce_def insert_absorb)
qed

lemma relInv_fetchOnce:
  assumes "relInv fs st" and "requestPath req = Some key" and "answer fs req = Some res"
  shows "relInv fs (fetchOnce key req res st)"
proof (cases "map_of (cache st) key = None")
  case False
  then have "fetchOnce key req res st = st" by (simp add: fetchOnce_def)
  with assms(1) show ?thesis by simp
next
  case True
  then have fresh: "key \<notin> fst ` set (cache st)" by (simp add: map_of_eq_None_iff)
  from True have c: "cache (fetchOnce key req res st) = cache st @ [(key, res)]"
    and f: "fetches (fetchOnce key req res st) = fetches st @ [(key, req)]"
    and m: "mapping (fetchOnce key req res st) = mapping st"
    by (simp_all add: fetchOnce_def)
  from assms(1) have
    1: "map (\<lambda>kr. (fst kr, answer fs (snd kr))) (fetches st)
          = map (\<lambda>kf. (fst kf, Some (snd kf))) (cache st)"
    and 2: "distinct (map fst (cache st))"
    and 3: "list_all (\<lambda>kr. requestPath (snd kr) = Some (fst kr)) (fetches st)"
    and 4: "list_all (\<lambda>m. distinct (map fst m)) (mapping st)"
    and 5: "list_all (\<lambda>m. list_all (\<lambda>rp. snd rp \<in> fst ` set (cache st)) m) (mapping st)"
    by (simp_all add: relInv_def)
  from 5 have grown: "list_all (\<lambda>m. list_all (\<lambda>rp. snd rp \<in> fst ` set (cache st @ [(key, res)])) m)
                     (mapping st)"
    by (auto simp: list_all_iff)
  from 1 2 3 4 grown fresh assms(2,3) show ?thesis
    unfolding relInv_def c f m by simp
qed

lemma relInv_ensure:
  "relInv fs st \<Longrightarrow> relInv fs (st\<lparr>mapping := ensureMapping (mapping st) index\<rparr>)"
  by (simp add: relInv_def ensureMapping_def)

lemma relInv_write:
  assumes "relInv fs st"
    and "setMapping (ensureMapping (mapping st) index) index relation path = Inr m'"
    and "requestPath req = Some path" and "answer fs req = Some res"
  shows "relInv fs (fetchOnce path req res (st\<lparr>mapping := m'\<rparr>))"
proof -
  let ?m = "ensureMapping (mapping st) index"
  let ?st = "st\<lparr>mapping := ?m\<rparr>"
  let ?keys = "fst ` set (cache (fetchOnce path req res ?st))"
  from relInv_fetchOnce [OF relInv_ensure [OF assms(1)] assms(3,4)]
  have inv: "relInv fs (fetchOnce path req res ?st)" .
  have c: "cache (fetchOnce path req res (st\<lparr>mapping := m'\<rparr>)) = cache (fetchOnce path req res ?st)"
    and f: "fetches (fetchOnce path req res (st\<lparr>mapping := m'\<rparr>)) = fetches (fetchOnce path req res ?st)"
    and mm: "mapping (fetchOnce path req res (st\<lparr>mapping := m'\<rparr>)) = m'"
    and mo: "mapping (fetchOnce path req res ?st) = ?m"
    by (simp_all add: fetchOnce_def)
  from assms(2) have idx: "index < length ?m"
    and m': "m' = ?m[index := AList.update relation path (?m ! index)]"
    by (auto simp: setMapping_def split: if_splits)
  have key: "path \<in> ?keys"
    by (simp add: keys_fetchOnce)
  from inv have d: "list_all (\<lambda>m. distinct (map fst m)) ?m"
    and k: "list_all (\<lambda>m. list_all (\<lambda>rp. snd rp \<in> ?keys) m) ?m"
    unfolding relInv_def mo by simp_all
  from d idx have "distinct (map fst (?m ! index))" by (simp add: list_all_length)
  then have "distinct (map fst (AList.update relation path (?m ! index)))"
    by (simp add: distinct_update)
  with d have d': "list_all (\<lambda>m. distinct (map fst m)) m'"
    unfolding m' by (rule list_all_list_update)
  from k idx have "list_all (\<lambda>rp. snd rp \<in> ?keys) (?m ! index)" by (simp add: list_all_length)
  then have "list_all (\<lambda>rp. snd rp \<in> ?keys) (AList.update relation path (?m ! index))"
    using key by (rule list_all_alist_update)
  with k have k': "list_all (\<lambda>m. list_all (\<lambda>rp. snd rp \<in> ?keys) m) m'"
    unfolding m' by (rule list_all_list_update)
  from inv d' k' show ?thesis
    unfolding relInv_def c f mm by simp
qed

lemma distinct_ensureMapping:
  "list_all (\<lambda>m. distinct (map fst m)) m \<Longrightarrow> list_all (\<lambda>m. distinct (map fst m)) (ensureMapping m index)"
  by (simp add: ensureMapping_def)

lemma distinct_setMapping:
  "list_all (\<lambda>m. distinct (map fst m)) m \<Longrightarrow> setMapping m index relation path = Inr m'
   \<Longrightarrow> list_all (\<lambda>m. distinct (map fst m)) m'"
  by (auto simp: setMapping_def list_all_iff distinct_update split: if_splits
      dest!: set_update_subset_insert [THEN subsetD])

lemma relInv_relationStep:
  assumes "relInv fs st" and "fs = firestore this"
    and "relationStep w this collectionPath idPropName metas data index st relation = Inr st'"
  shows "relInv fs st'"
  using assms relInv_ensure [OF assms(1), of index]
  by (auto simp: relationStep_def Let_def requestPath_def answer_def
      split: option.splits relationType.splits jsval.splits sum.splits
      intro!: relInv_write)

lemma relInv_relationsLoop:
  assumes "\<And>s rel s'. relInv fs s \<Longrightarrow> step s rel = Inr s' \<Longrightarrow> relInv fs s'"
  shows "relInv fs st \<Longrightarrow> relationsLoop step rels st = (r, st') \<Longrightarrow> relInv fs st'"
proof (induction rels arbitrary: st)
  case Nil
  then show ?case by simp
next
  case (Cons relation rest)
  then show ?case using assms by (auto split: sum.splits)
qed

lemma relInv_docsLoop:
  "relInv (firestore this) st
   \<Longrightarrow> docsLoop w this target collectionPath idPropName rels index docs st = (r, st')
   \<Longrightarrow> relInv (firestore this) st'"
proof (induction docs arbitrary: st index r st')
  case Nil
  then show ?case by simp
next
  case (Cons doc rest)
  show ?case
  proof (cases doc)
    case None
    with Cons show ?thesis by (auto split: prod.splits sum.splits)
  next
    case (Some d)
    with Cons show ?thesis
      by (auto simp: Let_def split: prod.splits sum.splits option.splits if_splits
          dest: relInv_relationsLoop [rotated 1, OF _ _ relInv_relationStep [OF _ refl]])
  qed
qed

subsection \<open>Lengths\<close>

lemma length_ensureMapping: "length (ensureMapping m index) \<le> max (length m) (Suc index)"
  by (simp add: ensureMapping_def)

lemma length_setMapping: "setMapping m index relation path = Inr m' \<Longrightarrow> length m' = length m"
  by (auto simp: setMapping_def split: if_splits)

lemma length_fetchOnce [simp]: "mapping (fetchOnce key req res st) = mapping st"
  by (simp add: fetchOnce_def)

lemma length_relationStep:
  assumes "relationStep w this collectionPath idPropName metas data index st relation = Inr st'"
    and "length (mapping st) \<le> Suc index"
  shows "length (mapping st') \<le> Suc index"
proof -
  have "length (ensureMapping (mapping st) index) \<le> Suc index"
    using assms(2) length_ensureMapping [of "mapping st" index] by simp
  then show ?thesis
    using assms
    by (auto simp: relationStep_def Let_def
        split: option.splits relationType.splits jsval.splits sum.splits
        dest!: length_setMapping)
qed

lemma length_relationsLoop:
  assumes "\<And>s rel s'. step s rel = Inr s' \<Longrightarrow> length (mapping s) \<le> n \<Longrightarrow> length (mapping s') \<le> n"
  shows "relationsLoop step rels st = (r, st') \<Longrightarrow> length (mapping st) \<le> n
         \<Longrightarrow> length (mapping st') \<le> n"
proof (induction rels arbitrary: st)
  case Nil
  then show ?case by simp
next
  case (Cons relation rest)
  then show ?case using assms by (auto split: sum.splits)
qed

lemma length_docsLoop:
  "docsLoop w this target collectionPath idPropName rels index docs st = (Inr datas, st')
   \<Longrightarrow> length (mapping st) \<le> index
   \<Longrightarrow> length datas = length docs \<and> length (mapping st') \<le> index + length docs"
proof (induction docs arbitrary: st index datas st')
  case Nil
  then show ?case by simp
next
  case (Cons doc rest)
  show ?case
  proof (cases doc)
    case None
    with Cons.prems obtain ds where
      r: "docsLoop w this target collectionPath idPropName rels (Suc index) rest st = (Inr ds, st')"
      and d: "datas = None # ds"
      by (auto split: prod.splits sum.splits)
    from Cons.IH [OF r] Cons.prems(2) d show ?thesis by simp
  next
    case (Some d)
    let ?step = "relationStep w this collectionPath idPropName
                   (filter (\<lambda>item. r_target item = target) (relations (metadataStorage w)))
                   (obj_set (snap_data d) idPropName (JStr (snap_id d))) index"
    from Cons.prems Some obtain st1 ds where
      l: "(if rels \<noteq> [] then relationsLoop ?step rels st else (None, st)) = (None, st1)"
      and r: "docsLoop w this target collectionPath idPropName rels (Suc index) rest st1 = (Inr ds, st')"
      and dd: "datas = Some (obj_set (snap_data d) idPropName (JStr (snap_id d))) # ds"
      by (auto simp: Let_def split: prod.splits sum.splits option.splits)
    have "length (mapping st1) \<le> Suc index"
    proof (cases "rels = []")
      case True
      with l Cons.prems(2) show ?thesis by simp
    next
      case False
      with l have "relationsLoop ?step rels st = (None, st1)" by simp
      from length_relationsLoop [where step = ?step and n = "Suc index", OF _ this]
        length_relationStep Cons.prems(2)
      show ?thesis by (metis le_SucI)
    qed
    from Cons.IH [OF r this] dd show ?thesis by simp
  qed
qed

lemma length_splice: "length (spliceRelations cd ms ds) = length ds"
  by (induction cd ms ds rule: spliceRelations.induct) simp_all

subsection \<open>Which document maps which relation to which path\<close>

lemma relationStep_other_index:
  assumes "relationStep w this collectionPath idPropName metas data index st relation = Inr st'"
    and "i < length (mapping st)" and "i \<noteq> index"
  shows "i < length (mapping st') \<and> mapping st' ! i = mapping st ! i"
  using assms
  by (auto simp: relationStep_def Let_def ensureMapping_def setMapping_def nth_append
      split: option.splits relationType.splits jsval.splits sum.splits if_splits)

lemma relationsLoop_other_index:
  assumes "\<And>s rel s'. step s rel = Inr s' \<Longrightarrow> i < length (mapping s)
             \<Longrightarrow> i < length (mapping s') \<and> mapping s' ! i = mapping s ! i"
  shows "relationsLoop step rels st = (r, st') \<Longrightarrow> i < length (mapping st)
         \<Longrightarrow> i < length (mapping st') \<and> mapping st' ! i = mapping st ! i"
proof (induction rels arbitrary: st)
  case Nil
  then show ?case by simp
next
  case (Cons relation rest)
  show ?case
  proof (cases "step st relation")
    case (Inl e)
    with Cons.prems show ?thesis by simp
  next
    case (Inr s1)
    from assms [OF Inr Cons.prems(2)] have 1: "i < length (mapping s1)"
      and 2: "mapping s1 ! i = mapping st ! i" by simp_all
    from Cons.prems(1) Inr have "relationsLoop step rest s1 = (r, st')" by simp
    from Cons.IH [OF this 1] 2 show ?thesis by simp
  qed
qed

lemma docsLoop_other_index:
  "docsLoop w this target collectionPath idPropName rels index docs st = (r, st')
   \<Longrightarrow> i < index \<Longrightarrow> i < length (mapping st)
   \<Longrightarrow> i < length (mapping st') \<and> mapping st' ! i = mapping st ! i"
proof (induction docs arbitrary: st index r st')
  case Nil
  then show ?case by simp
next
  case (Cons doc rest)
  show ?case
  proof (cases doc)
    case None
    with Cons.prems obtain r1 where
      "docsLoop w this target collectionPath idPropName rels (Suc index) rest st = (r1, st')"
      by (auto split: prod.splits sum.splits)
    from Cons.IH [OF this] Cons.prems show ?thesis by simp
  next
    case (Some d)
    let ?step = "relationStep w this collectionPath idPropName
                   (filter (\<lambda>item. r_target item = target) (relations (metadataStorage w)))
                   (obj_set (snap_data d) idPropName (JStr (snap_id d))) index"
    obtain e1 st1 where
      l: "(if rels \<noteq> [] then relationsLoop ?step rels st else (None, st)) = (e1, st1)"
      by (cases "if rels \<noteq> [] then relationsLoop ?step rels st else (None, st)")
    have k: "i < length (mapping st1) \<and> mapping st1 ! i = mapping st ! i"
    proof (cases "rels = []")
      case True
      with l Cons.prems show ?thesis by simp
    next
      case False
      with l have "relationsLoop ?step rels st = (e1, st1)" by simp
      from relationsLoop_other_index [where step = ?step, OF _ this Cons.prems(3)]
        relationStep_other_index Cons.prems(2)
      show ?thesis by (metis less_irrefl_nat)
    qed
    show ?thesis
    proof (cases e1)
      case (Some e)
      with l \<open>doc = Some d\<close> Cons.prems(1) have "st' = st1"
        by (auto simp: Let_def split: if_splits)
      with k show ?thesis by simp
    next
      case None
      with l \<open>doc = Some d\<close> Cons.prems(1) obtain r1 where
        "docsLoop w this target collectionPath idPropName rels (Suc index) rest st1 = (r1, st')"
        by (auto simp: Let_def split: prod.splits sum.splits if_splits)
      from Cons.IH [OF this] k Cons.prems(2) show ?thesis by simp
    qed
  qed
qed

lemma relationStep_writes:
  assumes "relationStep w this collectionPath idPropName metas data index st relation = Inr st'"
    and "relationPath metas collectionPath idPropName data relation = Some p"
  shows "index < length (mapping st') \<and> map_of (mapping st' ! index) relation = Some p"
  using assms
  by (auto simp: relationStep_def relationPath_def Let_def setMapping_def update_conv'
      split: option.splits relationType.splits jsval.splits sum.splits if_splits)

lemma relationStep_keeps:
  assumes "relationStep w this collectionPath idPropName metas data index st relation = Inr st'"
    and "index < length (mapping st)"
    and "map_of (mapping st ! index) rel = Some p"
    and "relationPath metas collectionPath idPropName data rel = Some p"
  shows "index < length (mapping st') \<and> map_of (mapping st' ! index) rel = Some p"
  using assms
  by (auto simp: relationStep_def relationPath_def Let_def setMapping_def ensureMapping_def
        update_conv'
      split: option.splits relationType.splits jsval.splits sum.splits if_splits)

lemma relationsLoop_keeps:
  "relationsLoop (relationStep w this collectionPath idPropName metas data index) rels st
     = (None, st')
   \<Longrightarrow> index < length (mapping st) \<Longrightarrow> map_of (mapping st ! index) rel = Some p
   \<Longrightarrow> relationPath metas collectionPath idPropName data rel = Some p
   \<Longrightarrow> index < length (mapping st') \<and> map_of (mapping st' ! index) rel = Some p"
proof (induction rels arbitrary: st)
  case Nil
  then show ?case by simp
next
  case (Cons relation rest)
  from Cons.prems(1) obtain s1 where
    s: "relationStep w this collectionPath idPropName metas data index st relation = Inr s1"
    and r: "relationsLoop (relationStep w this collectionPath idPropName metas data index) rest s1
              = (None, st')"
    by (auto split: sum.splits)
  from relationStep_keeps [OF s Cons.prems(2,3,4)] Cons.IH [OF r] Cons.prems(4)
  show ?case by simp
qed

lemma relationsLoop_writes:
  "relationsLoop (relationStep w this collectionPath idPropName metas data index) rels st
     = (None, st')
   \<Longrightarrow> rel \<in> set rels
   \<Longrightarrow> relationPath metas collectionPath idPropName data rel = Some p
   \<Longrightarrow> index < length (mapping st') \<and> map_of (mapping st' ! index) rel = Some p"
proof (induction rels arbitrary: st)
  case Nil
  then show ?case by simp
next
  case (Cons relation rest)
  from Cons.prems(1) obtain s1 where
    s: "relationStep w this collectionPath idPropName metas data index st relation = Inr s1"
    and r: "relationsLoop (relationStep w this collectionPath idPropName metas data index) rest s1
              = (None, st')"
    by (auto split: sum.splits)
  show ?case
  proof (cases "rel = relation")
    case True
    from relationStep_writes [OF s] True Cons.prems(3)
    have "index < length (mapping s1) \<and> map_of (mapping s1 ! index) rel = Some p" by simp
    with relationsLoop_keeps [OF r _ _ Cons.prems(3)] show ?thesis by simp
  next
    case False
    with Cons.prems(2) have "rel \<in> set rest" by simp
    from Cons.IH [OF r this Cons.prems(3)] show ?thesis .
  qed
qed

lemma docsLoop_maps:
  "docsLoop w this target collectionPath idPropName rels index docs st = (Inr datas, st')
   \<Longrightarrow> k < length docs \<Longrightarrow> docs ! k = Some d \<Longrightarrow> rel \<in> set rels
   \<Longrightarrow> relationPath (filter (\<lambda>item. r_target item = target) (relations (metadataStorage w)))
         collectionPath idPropName (dataOf idPropName d) rel = Some p
   \<Longrightarrow> index + k < length (mapping st') \<and> map_of (mapping st' ! (index + k)) rel = Some p"
proof (induction docs arbitrary: st index datas k)
  case Nil
  then show ?case by simp
next
  case (Cons doc rest)
  let ?metas = "filter (\<lambda>item. r_target item = target) (relations (metadataStorage w))"
  show ?case
  proof (cases doc)
    case None
    with Cons.prems(1) obtain ds where
      r: "docsLoop w this target collectionPath idPropName rels (Suc index) rest st = (Inr ds, st')"
      by (auto split: prod.splits sum.splits)
    from None Cons.prems(2,3) obtain j where j: "k = Suc j" "j < length rest" "rest ! j = Some d"
      by (cases k) auto
    from Cons.IH [OF r j(2,3) Cons.prems(4,5)] j(1) show ?thesis by simp
  next
    case (Some d0)
    let ?step = "relationStep w this collectionPath idPropName ?metas
                   (obj_set (snap_data d0) idPropName (JStr (snap_id d0))) index"
    from Cons.prems(4) have ne: "rels \<noteq> []" by auto
    from Cons.prems(1) Some ne obtain st1 ds where
      l: "relationsLoop ?step rels st = (None, st1)"
      and r: "docsLoop w this target collectionPath idPropName rels (Suc index) rest st1 = (Inr ds, st')"
      by (auto simp: Let_def split: prod.splits sum.splits option.splits)
    show ?thesis
    proof (cases k)
      case 0
      with Cons.prems(3) Some have "d0 = d" by simp
      with relationsLoop_writes [OF l Cons.prems(4)] Cons.prems(5)
      have "index < length (mapping st1) \<and> map_of (mapping st1 ! index) rel = Some p"
        by (simp add: dataOf_def)
      with docsLoop_other_index [OF r, of index] 0 show ?thesis by simp
    next
      case (Suc j)
      with Cons.prems(2,3) have "j < length rest" "rest ! j = Some d" by simp_all
      from Cons.IH [OF r this Cons.prems(4,5)] Suc show ?thesis by simp
    qed
  qed
qed

subsection \<open>The splice writes every mapped entry that has cache data\<close>

lemma spliceDoc_other:
  "rel \<notin> fst ` set m \<Longrightarrow> map_of (spliceDoc cd m data) rel = map_of data rel"
  by (induction m arbitrary: data)
     (auto simp: obj_set_def update_conv' split: option.splits)

lemma spliceDoc_hit:
  "distinct (map fst m) \<Longrightarrow> map_of m rel = Some path \<Longrightarrow> map_of cd path = Some v
   \<Longrightarrow> map_of (spliceDoc cd m data) rel = Some v"
proof (induction m arbitrary: data)
  case Nil
  then show ?case by simp
next
  case (Cons a m)
  obtain r p where a: "a = (r, p)" by (cases a)
  show ?case
  proof (cases "r = rel")
    case True
    with Cons.prems a have "p = path" "rel \<notin> fst ` set m" by auto
    with True a Cons.prems(3) show ?thesis
      by (simp add: spliceDoc_other obj_set_def update_conv')
  next
    case False
    with Cons a show ?thesis by simp
  qed
qed

lemma splice_hit:
  "length ms \<le> length datas \<Longrightarrow> list_all (\<lambda>m. distinct (map fst m)) ms \<Longrightarrow> i < length ms
   \<Longrightarrow> map_of (ms ! i) rel = Some path \<Longrightarrow> map_of cd path = Some v
   \<Longrightarrow> \<exists>d. spliceRelations cd ms datas ! i = Some d \<and> map_of d rel = Some v"
proof (induction cd ms datas arbitrary: i rule: spliceRelations.induct)
  case (1 cacheData datas)
  then show ?case by simp
next
  case (2 cacheData m ms)
  then show ?case by simp
next
  case (3 cacheData m ms data datas)
  then show ?case by (cases i) (auto simp: spliceDoc_hit)
next
  case (4 cacheData m ms datas)
  show ?case
  proof (cases i)
    case 0
    with 4 have "map_of (spliceDoc cacheData m []) rel = Some v"
      by (auto simp: spliceDoc_hit)
    moreover from this have "spliceDoc cacheData m [] \<noteq> []" by auto
    ultimately show ?thesis using 0 by simp
  next
    case (Suc j)
    with 4 show ?thesis by auto
  qed
qed

lemma one_request_per_key:
  "distinct (map fst log) \<Longrightarrow> list_all (\<lambda>kr. f (snd kr) = Some (fst kr)) log
   \<Longrightarrow> length (filter (\<lambda>r. f r = Some p) (map snd log)) \<le> 1"
proof (induction log)
  case Nil
  then show ?case by simp
next
  case (Cons a log)
  show ?case
  proof (cases "fst a = p")
    case True
    with Cons.prems have "p \<notin> fst ` set log" by auto
    with Cons.prems have "filter (\<lambda>r. f r = Some p) (map snd log) = []"
      by (auto simp: filter_empty_conv list_all_iff)
    with Cons show ?thesis by simp
  next
    case False
    with Cons show ?thesis by auto
  qed
qed

subsection \<open>What the cache holds and what the splice writes\<close>

lemma docsLoop_datas:
  "docsLoop w this target collectionPath idPropName rels index docs st = (Inr datas, st')
   \<Longrightarrow> datas = map (map_option (dataOf idPropName)) docs"
proof (induction docs arbitrary: st index datas)
  case Nil
  then show ?case by simp
next
  case (Cons doc rest)
  then show ?case
    by (cases doc)
       (auto simp: Let_def dataOf_def split: prod.splits sum.splits option.splits if_splits)
qed

lemma map_of_relationCacheData:
  "distinct (map fst c) \<Longrightarrow>
   map_of (relationCacheData c) key
     = (case map_of c key of
          None \<Rightarrow> None
        | Some (FetchedDoc snap) \<Rightarrow>
            (if snap_exists snap then Some (JObj (snap_data snap)) else None)
        | Some (FetchedQuery found) \<Rightarrow> Some (JArr (map (\<lambda>doc. JObj (snap_data doc)) found)))"
proof (induction c rule: relationCacheData.induct)
  case 1
  then show ?case by simp
next
  case (2 k snap rest)
  then show ?case by (auto simp: map_of_eq_None_iff [symmetric] split: option.splits)
next
  case (3 k docs rest)
  then show ?case by simp
qed

lemma spliceDoc_miss:
  "distinct (map fst m) \<Longrightarrow> map_of m rel = Some path \<Longrightarrow> map_of cd path = None
   \<Longrightarrow> map_of (spliceDoc cd m data) rel = map_of data rel"
proof (induction m arbitrary: data)
  case Nil
  then show ?case by simp
next
  case (Cons a m)
  obtain r p where a: "a = (r, p)" by (cases a)
  show ?case
  proof (cases "r = rel")
    case True
    with Cons.prems a have "p = path" "rel \<notin> fst ` set m" by auto
    with True a Cons.prems(3) show ?thesis by (simp add: spliceDoc_other)
  next
    case False
    with Cons a show ?thesis
      by (auto simp: obj_set_def update_conv' split: option.splits)
  qed
qed

lemma splice_nth:
  "i < length datas \<Longrightarrow> i < length ms \<Longrightarrow> datas ! i = Some data
   \<Longrightarrow> spliceRelations cd ms datas ! i = Some (spliceDoc cd (ms ! i) data)"
proof (induction cd ms datas arbitrary: i rule: spliceRelations.induct)
  case (1 cacheData datas)
  then show ?case by simp
next
  case (2 cacheData m ms)
  then show ?case by simp
next
  case (3 cacheData m ms d datas)
  then show ?case by (cases i) auto
next
  case (4 cacheData m ms datas)
  then show ?case by (cases i) auto
qed

lemma map_of_map_snd:
  "map_of (map (\<lambda>kv. (fst kv, g (snd kv))) xs) k = map_option g (map_of xs k)"
  by (induction xs) auto

lemma cache_entry:
  assumes "relInv fs st" and "key \<in> fst ` set (cache st)"
  shows "\<exists>r f. map_of (fetches st) key = Some r \<and> requestPath r = Some key
               \<and> answer fs r = Some f \<and> map_of (cache st) key = Some f"
proof -
  from assms(2) obtain f where f: "map_of (cache st) key = Some f"
    by (cases "map_of (cache st) key") (auto simp: map_of_eq_None_iff)
  from assms(1) have "map_of (map (\<lambda>kr. (fst kr, answer fs (snd kr))) (fetches st)) key
        = map_of (map (\<lambda>kf. (fst kf, Some (snd kf))) (cache st)) key"
    by (simp add: relInv_def)
  with f have "map_option (answer fs) (map_of (fetches st) key) = Some (Some f)"
    by (simp add: map_of_map_snd)
  then obtain r where r: "map_of (fetches st) key = Some r" "answer fs r = Some f"
    by (cases "map_of (fetches st) key") auto
  from r(1) have "(key, r) \<in> set (fetches st)" by (rule map_of_SomeD)
  with assms(1) have "requestPath r = Some key" by (auto simp: relInv_def list_all_iff)
  with r f show ?thesis by blast
qed

lemma mapped_path_is_cached:
  assumes "relInv fs st" and "i < length (mapping st)" and "map_of (mapping st ! i) rel = Some path"
  shows "path \<in> fst ` set (cache st)"
proof -
  from assms(3) have "(rel, path) \<in> set (mapping st ! i)" by (rule map_of_SomeD)
  moreover from assms(1,2) have "list_all (\<lambda>rp. snd rp \<in> fst ` set (cache st)) (mapping st ! i)"
    by (simp add: relInv_def list_all_length)
  ultimately have "snd (rel, path) \<in> fst ` set (cache st)"
    unfolding list_all_iff by (rule bspec [rotated])
  then show ?thesis by simp
qed

subsection \<open>The run of loadRelations\<close>

lemma loadRelations_run:
  assumes "getIdPropName (metadataStorage w) target = Inr idPropName"
    and "getCollectionPath (metadataStorage w) target = Inr collectionPath"
    and "docsLoop w this target collectionPath idPropName rels 0 docs emptyRelState = (r, st)"
  shows "snd (loadRelations w this target docs rels) = fetches st"
    and "relInv (firestore this) st"
  using assms relInv_docsLoop [OF relInv_empty assms(3)]
  by (auto simp: loadRelations_def split: sum.splits)

lemma loadRelations_success:
  assumes "fst (loadRelations w this target docs rels) = Inr ents"
  obtains idPropName collectionPath datas st where
    "getIdPropName (metadataStorage w) target = Inr idPropName"
    "getCollectionPath (metadataStorage w) target = Inr collectionPath"
    "docsLoop w this target collectionPath idPropName rels 0 docs emptyRelState = (Inr datas, st)"
    "ents = map (map_option (transformToClass w target))
              (if mapping st \<noteq> []
               then spliceRelations (relationCacheData (cache st)) (mapping st) datas else datas)"
    "length datas = length docs"
proof -
  from assms obtain idPropName where idp: "getIdPropName (metadataStorage w) target = Inr idPropName"
    by (cases "getIdPropName (metadataStorage w) target") (auto simp: loadRelations_def)
  from assms idp obtain collectionPath where
    cp: "getCollectionPath (metadataStorage w) target = Inr collectionPath"
    by (cases "getCollectionPath (metadataStorage w) target") (auto simp: loadRelations_def)
  obtain r st where
    run0: "docsLoop w this target collectionPath idPropName rels 0 docs emptyRelState = (r, st)"
    by (cases "docsLoop w this target collectionPath idPropName rels 0 docs emptyRelState")
  from assms idp cp run0 obtain datas where r: "r = Inr datas"
    by (cases r) (auto simp: loadRelations_def)
  note run = run0 [unfolded r]
  from length_docsLoop [OF run] have len: "length datas = length docs"
    by (simp add: emptyRelState_def)
  have e: "ents = map (map_option (transformToClass w target))
              (if mapping st \<noteq> []
               then spliceRelations (relationCacheData (cache st)) (mapping st) datas else datas)"
    using assms idp cp run by (simp add: loadRelations_def)
  show thesis using that [OF idp cp run e len] .
qed

lemma length_loadRelations:
  "fst (loadRelations w this target docs rels) = Inr ents \<Longrightarrow> length ents = length docs"
  by (erule loadRelations_success) (simp add: length_splice)

text \<open>
  With no relation requested nothing is read and every document becomes its data
  with the id property set.
\<close>

lemma docsLoop_no_relations:
  "docsLoop w this target collectionPath idPropName [] index docs st
     = (Inr (map (map_option (dataOf idPropName)) docs), st)"
proof (induction docs arbitrary: index)
  case Nil
  then show ?case by simp
next
  case (Cons doc rest)
  then show ?case by (cases doc) (simp_all add: dataOf_def)
qed

lemma loadRelations_no_relations:
  assumes "getIdPropName (metadataStorage w) target = Inr idPropName"
    and "getCollectionPath (metadataStorage w) target = Inr collectionPath"
  shows "loadRelations w this target docs []
           = (Inr (map (map_option (\<lambda>d. transformToClass w target (dataOf idPropName d))) docs), [])"
  using assms
  by (simp add: loadRelations_def docsLoop_no_relations emptyRelState_def comp_def
      option.map_comp)

text \<open>
  \<open>find\<close> issues its query and then the reads of its one \<open>loadRelations\<close> call.
\<close>

lemma find_cq_reads:
  "findQuery w this target arg = Inr q \<Longrightarrow>
   snd (find_cq w this target arg)
     = QueryGet (tnx (options this)) q
       # map snd (snd (loadRelations w this target (map Some (fs_run (firestore this) q))
                        (relationsOf arg)))"
  by (simp add: find_cq_def split: prod.splits)

text \<open>
  The data the cache resolved for a path is one object, shared by every entity it is
  spliced into, and \<open>convertToJsObject\<close> converts it in place once per entity. That
  changes nothing: converting twice is converting once.
\<close>

lemma convertValue_idem: "convertValue (convertValue v) = convertValue v"
  by (induction v rule: convertValue.induct) (simp_all add: comp_def)

lemma convertToJsObject_idem: "convertToJsObject (convertToJsObject obj) = convertToJsObject obj"
  by (simp add: convertToJsObject_def comp_def convertValue_idem)

lemmas example_defs =
  exampleWorld_def exampleStorage_def exampleStore_def storeOf_def rootQuery_def noOptions_def
  userCollection_def postCollection_def userId_def postId_def postAuthor_def userPosts_def
  inSource_def parent_path_def

lemmas model_defs =
  loadRelations_def getIdPropName_def getIdProp_def getCollectionPath_def getCollectionName_def
  emptyRelState_def relationStep_def ensureMapping_def setMapping_def fetchOnce_def getDoc_def
  obj_get_def obj_set_def ref_id_def transformToClass_def convertToJsObject_def callType_def
  find_cq_def findQuery_def getQuery_def truthy_str_def
  getFindConditionsFromFindManyOptions_def getFindConditionsFromFindOneOptions_def
  relationsOf_def findManySteps_def findOneSteps_def optSteps_def addStep_def addSteps_def
  findWhereStep_def findOneWhereStep_def plainWhere_def get_prop_def is_ref_def
  findAndToken_def tokenObjOf_def jwt_sign_def jwt_verify_def findByToken_def getDocumentRef_def
  resumeOptions_def findOne_def findOneQuery_def firstOf_def findByIds_def
  clientDoc_def validResourcePath_def segments_def

text \<open>
  C1: whatever documents and relation names \<open>loadRelations\<close> is called with (so
  also from find, findOne and findByIds, which call it once), the reads it issues hold
  at most one read for any path, also when the call ends in an error. When it returns,
  its result is the class transformation of the spliced data, one entry per document.
  For every document that maps a requested relation to a path, a read for that path
  was issued (the one read under that cache key), and in the spliced data the document
  holds under the relation name what the store answers to that read: the data of the
  document read when it exists (the field is left as it was when it does not), or the
  list of the data of the documents the query returns. So every document that mapped to
  a path gets the resolved data of that path, before the transformation.
\<close>

theorem loadRelations_fetches_once_and_splices:
  "(\<forall>p. length (filter (\<lambda>r. requestPath r = Some p)
                 (map snd (snd (loadRelations w this target docs rels)))) \<le> 1)
   \<and> (\<forall>ents. fst (loadRelations w this target docs rels) = Inr ents \<longrightarrow>
        (\<exists>idPropName collectionPath spliced.
            getIdPropName (metadataStorage w) target = Inr idPropName
          \<and> getCollectionPath (metadataStorage w) target = Inr collectionPath
          \<and> ents = map (map_option (transformToClass w target)) spliced
          \<and> length spliced = length docs
          \<and> (\<forall>i d rel path.
                 i < length docs \<and> docs ! i = Some d \<and> rel \<in> set rels
                 \<and> relationPath
                       (filter (\<lambda>item. r_target item = target) (relations (metadataStorage w)))
                       collectionPath idPropName (dataOf idPropName d) rel = Some path
                 \<longrightarrow> (\<exists>r e.
                        map_of (snd (loadRelations w this target docs rels)) path = Some r
                      \<and> requestPath r = Some path
                      \<and> spliced ! i = Some e
                      \<and> map_of e rel
                          = (case r of
                               DocGet p \<Rightarrow>
                                 (if snap_exists (getDoc (firestore this) p)
                                  then Some (JObj (snap_data (getDoc (firestore this) p)))
                                  else map_of (dataOf idPropName d) rel)
                             | QueryGet t q \<Rightarrow>
                                 Some (JArr (map (\<lambda>doc. JObj (snap_data doc))
                                               (fs_run (firestore this) q)))
                             | GetAll t paths \<Rightarrow> None)))))"
proof (intro conjI allI impI)
  fix p
  show "length (filter (\<lambda>r. requestPath r = Some p)
          (map snd (snd (loadRelations w this target docs rels)))) \<le> 1"
  proof (cases "getIdPropName (metadataStorage w) target")
    case (Inl e)
    then show ?thesis by (simp add: loadRelations_def)
  next
    case idp: (Inr idPropName)
    show ?thesis
    proof (cases "getCollectionPath (metadataStorage w) target")
      case (Inl e)
      with idp show ?thesis by (simp add: loadRelations_def)
    next
      case cp: (Inr collectionPath)
      obtain r st where
        run: "docsLoop w this target collectionPath idPropName rels 0 docs emptyRelState = (r, st)"
        by (cases "docsLoop w this target collectionPath idPropName rels 0 docs emptyRelState")
      from loadRelations_run [OF idp cp run]
      have log: "snd (loadRelations w this target docs rels) = fetches st"
        and inv: "relInv (firestore this) st"
        by simp_all
      from inv have "map fst (map (\<lambda>kr. (fst kr, answer (firestore this) (snd kr))) (fetches st))
                       = map fst (map (\<lambda>kf. (fst kf, Some (snd kf))) (cache st))"
        by (simp add: relInv_def)
      then have "map fst (fetches st) = map fst (cache st)" by (simp add: comp_def)
      with inv have "distinct (map fst (fetches st))"
        and "list_all (\<lambda>kr. requestPath (snd kr) = Some (fst kr)) (fetches st)"
        by (simp_all add: relInv_def)
      then show ?thesis unfolding log by (rule one_request_per_key)
    qed
  qed
next
  fix ents
  assume ok: "fst (loadRelations w this target docs rels) = Inr ents"
  let ?metas = "filter (\<lambda>item. r_target item = target) (relations (metadataStorage w))"
  let ?fs = "firestore this"
  from ok obtain idPropName collectionPath datas st where
    idp: "getIdPropName (metadataStorage w) target = Inr idPropName"
    and cp: "getCollectionPath (metadataStorage w) target = Inr collectionPath"
    and run: "docsLoop w this target collectionPath idPropName rels 0 docs emptyRelState
                = (Inr datas, st)"
    and ents0: "ents = map (map_option (transformToClass w target))
              (if mapping st \<noteq> []
               then spliceRelations (relationCacheData (cache st)) (mapping st) datas else datas)"
    and len: "length datas = length docs"
    by (rule loadRelations_success)
  from loadRelations_run [OF idp cp run]
  have log: "snd (loadRelations w this target docs rels) = fetches st"
    and inv: "relInv ?fs st"
    by simp_all
  from docsLoop_datas [OF run] have datas: "datas = map (map_option (dataOf idPropName)) docs" .
  define spliced where
    "spliced = (if mapping st \<noteq> []
                then spliceRelations (relationCacheData (cache st)) (mapping st) datas else datas)"
  have ents: "ents = map (map_option (transformToClass w target)) spliced"
    using ents0 by (simp add: spliced_def)
  have slen: "length spliced = length docs"
    by (simp add: spliced_def len length_splice)
  have hit: "\<exists>r e. map_of (snd (loadRelations w this target docs rels)) path = Some r
                      \<and> requestPath r = Some path
                      \<and> spliced ! i = Some e
                      \<and> map_of e rel
                          = (case r of
                               DocGet p \<Rightarrow>
                                 (if snap_exists (getDoc ?fs p)
                                  then Some (JObj (snap_data (getDoc ?fs p)))
                                  else map_of (dataOf idPropName d) rel)
                             | QueryGet t q \<Rightarrow>
                                 Some (JArr (map (\<lambda>doc. JObj (snap_data doc)) (fs_run ?fs q)))
                             | GetAll t paths \<Rightarrow> None)"
    if h: "i < length docs \<and> docs ! i = Some d \<and> rel \<in> set rels
        \<and> relationPath ?metas collectionPath idPropName (dataOf idPropName d) rel = Some path"
    for i d rel path
  proof -
    from h docsLoop_maps [OF run, of i d rel path]
    have m: "i < length (mapping st)" "map_of (mapping st ! i) rel = Some path" by simp_all
    then have ne: "mapping st \<noteq> []" by auto
    from inv have dm: "distinct (map fst (mapping st ! i))"
      using m(1) by (simp add: relInv_def list_all_length)
    from inv have dc: "distinct (map fst (cache st))" by (simp add: relInv_def)
    from h datas have di: "datas ! i = Some (dataOf idPropName d)" by simp
    from h len have il: "i < length datas" by simp
    from splice_nth [OF il m(1) di] ne
    have sp: "spliced ! i
                = Some (spliceDoc (relationCacheData (cache st)) (mapping st ! i)
                          (dataOf idPropName d))"
      by (simp add: spliced_def)
    from cache_entry [OF inv mapped_path_is_cached [OF inv m]] obtain r f where
      r: "map_of (fetches st) path = Some r" "requestPath r = Some path"
      and a: "answer ?fs r = Some f" and c: "map_of (cache st) path = Some f"
      by blast
    have v: "map_of (spliceDoc (relationCacheData (cache st)) (mapping st ! i)
                       (dataOf idPropName d)) rel
              = (case r of
                   DocGet p \<Rightarrow>
                     (if snap_exists (getDoc ?fs p)
                      then Some (JObj (snap_data (getDoc ?fs p)))
                      else map_of (dataOf idPropName d) rel)
                 | QueryGet t q \<Rightarrow>
                     Some (JArr (map (\<lambda>doc. JObj (snap_data doc)) (fs_run ?fs q)))
                 | GetAll t paths \<Rightarrow> None)"
    proof (cases r)
      case (DocGet p)
      with a have f: "f = FetchedDoc (getDoc ?fs p)" by (simp add: answer_def)
      show ?thesis
      proof (cases "snap_exists (getDoc ?fs p)")
        case True
        with f c dc have "map_of (relationCacheData (cache st)) path
                            = Some (JObj (snap_data (getDoc ?fs p)))"
          by (simp add: map_of_relationCacheData)
        from spliceDoc_hit [OF dm m(2) this] DocGet True show ?thesis by simp
      next
        case False
        with f c dc have "map_of (relationCacheData (cache st)) path = None"
          by (simp add: map_of_relationCacheData)
        from spliceDoc_miss [OF dm m(2) this] DocGet False show ?thesis by simp
      qed
    next
      case (QueryGet t q)
      with a have f: "f = FetchedQuery (fs_run ?fs q)" by (simp add: answer_def)
      with c dc have "map_of (relationCacheData (cache st)) path
                        = Some (JArr (map (\<lambda>doc. JObj (snap_data doc)) (fs_run ?fs q)))"
        by (simp add: map_of_relationCacheData)
      from spliceDoc_hit [OF dm m(2) this] QueryGet show ?thesis by simp
    next
      case (GetAll t paths)
      with a show ?thesis by (simp add: answer_def)
    qed
    from r sp v show ?thesis unfolding log by blast
  qed
  from idp cp ents slen hit
  show "\<exists>idPropName collectionPath spliced.
            getIdPropName (metadataStorage w) target = Inr idPropName
          \<and> getCollectionPath (metadataStorage w) target = Inr collectionPath
          \<and> ents = map (map_option (transformToClass w target)) spliced
          \<and> length spliced = length docs
          \<and> (\<forall>i d rel path.
                 i < length docs \<and> docs ! i = Some d \<and> rel \<in> set rels
                 \<and> relationPath ?metas collectionPath idPropName (dataOf idPropName d) rel
                     = Some path
                 \<longrightarrow> (\<exists>r e.
                        map_of (snd (loadRelations w this target docs rels)) path = Some r
                      \<and> requestPath r = Some path
                      \<and> spliced ! i = Some e
                      \<and> map_of e rel
                          = (case r of
                               DocGet p \<Rightarrow>
                                 (if snap_exists (getDoc ?fs p)
                                  then Some (JObj (snap_data (getDoc ?fs p)))
                                  else map_of (dataOf idPropName d) rel)
                             | QueryGet t q \<Rightarrow>
                                 Some (JArr (map (\<lambda>doc. JObj (snap_data doc)) (fs_run ?fs q)))
                             | GetAll t paths \<Rightarrow> None)))"
    by blast
qed

text \<open>
  C1 at the two example posts, which both refer to the user \<open>users/u1\<close>: one read,
  and by the theorem the user's data under \<open>author\<close> in both entries of the spliced
  data; the call returns the two entities with that data.
\<close>

theorem loadRelations_fetches_once_and_splices_witness:
  "fst (loadRelations exampleWorld rootQuery (Class ''Post'') examplePosts [''author''])
     = Inr [Some [(''title'', JStr ''A''), (''author'', JObj [(''name'', JStr ''Ann'')]),
                  (''id'', JStr ''p1'')],
            Some [(''title'', JStr ''B''), (''author'', JObj [(''name'', JStr ''Ann'')]),
                  (''id'', JStr ''p2'')]]
   \<and> snd (loadRelations exampleWorld rootQuery (Class ''Post'') examplePosts [''author''])
     = [(''users/u1'', DocGet ''users/u1'')]
   \<and> (\<exists>spliced e0 e1.
         [Some [(''title'', JStr ''A''), (''author'', JObj [(''name'', JStr ''Ann'')]),
                (''id'', JStr ''p1'')],
          Some [(''title'', JStr ''B''), (''author'', JObj [(''name'', JStr ''Ann'')]),
                (''id'', JStr ''p2'')]]
           = map (map_option (transformToClass exampleWorld (Class ''Post''))) spliced
       \<and> length spliced = 2
       \<and> spliced ! 0 = Some e0 \<and> map_of e0 ''author'' = Some (JObj [(''name'', JStr ''Ann'')])
       \<and> spliced ! 1 = Some e1 \<and> map_of e1 ''author'' = Some (JObj [(''name'', JStr ''Ann'')]))"
proof -
  let ?ents = "[Some [(''title'', JStr ''A''), (''author'', JObj [(''name'', JStr ''Ann'')]),
                      (''id'', JStr ''p1'')],
                Some [(''title'', JStr ''B''), (''author'', JObj [(''name'', JStr ''Ann'')]),
                      (''id'', JStr ''p2'')]]"
  let ?p1 = "\<lparr>snap_id = ''p1'', snap_path = ''posts/p1'', snap_exists = True,
              snap_data = [(''title'', JStr ''A''), (''author'', JRef ''users/u1'')]\<rparr>"
  let ?p2 = "\<lparr>snap_id = ''p2'', snap_path = ''posts/p2'', snap_exists = True,
              snap_data = [(''title'', JStr ''B''), (''author'', JRef ''users/u1'')]\<rparr>"
  let ?metas = "filter (\<lambda>item. r_target item = Class ''Post'')
                  (relations (metadataStorage exampleWorld))"
  have ev: "fst (loadRelations exampleWorld rootQuery (Class ''Post'') examplePosts [''author''])
              = Inr ?ents"
    by (simp add: model_defs example_defs examplePosts_def Let_def)
  have log: "snd (loadRelations exampleWorld rootQuery (Class ''Post'') examplePosts [''author''])
              = [(''users/u1'', DocGet ''users/u1'')]"
    by (simp add: model_defs example_defs examplePosts_def Let_def)
  have idp: "getIdPropName (metadataStorage exampleWorld) (Class ''Post'') = Inr ''id''"
    and cp: "getCollectionPath (metadataStorage exampleWorld) (Class ''Post'') = Inr ''posts''"
    by (simp_all add: model_defs example_defs)
  have user: "snap_exists (getDoc (firestore rootQuery) ''users/u1'')"
    "snap_data (getDoc (firestore rootQuery) ''users/u1'') = [(''name'', JStr ''Ann'')]"
    by (simp_all add: model_defs example_defs)
  have docs: "0 < length examplePosts" "examplePosts ! 0 = Some ?p1"
    "1 < length examplePosts" "examplePosts ! 1 = Some ?p2"
    by (simp_all add: examplePosts_def)
  have rp1: "relationPath ?metas ''posts'' ''id'' (dataOf ''id'' ?p1) ''author'' = Some ''users/u1''"
    and rp2: "relationPath ?metas ''posts'' ''id'' (dataOf ''id'' ?p2) ''author'' = Some ''users/u1''"
    by (simp_all add: relationPath_def dataOf_def model_defs example_defs)
  from loadRelations_fetches_once_and_splices
         [of exampleWorld rootQuery "Class ''Post''" examplePosts "[''author'']",
          THEN conjunct2, rule_format, OF ev]
  show ?thesis
  proof (elim exE conjE)
    fix idPropName collectionPath spliced
    assume a: "getIdPropName (metadataStorage exampleWorld) (Class ''Post'') = Inr idPropName"
      and b: "getCollectionPath (metadataStorage exampleWorld) (Class ''Post'') = Inr collectionPath"
      and c: "?ents = map (map_option (transformToClass exampleWorld (Class ''Post''))) spliced"
      and l: "length spliced = length examplePosts"
      and h0: "\<forall>i d rel path.
              i < length examplePosts \<and> examplePosts ! i = Some d \<and> rel \<in> set [''author'']
              \<and> relationPath ?metas collectionPath idPropName (dataOf idPropName d) rel = Some path
              \<longrightarrow> (\<exists>r e.
                    map_of (snd (loadRelations exampleWorld rootQuery (Class ''Post'')
                                   examplePosts [''author''])) path = Some r
                  \<and> requestPath r = Some path
                  \<and> spliced ! i = Some e
                  \<and> map_of e rel
                      = (case r of
                           DocGet p \<Rightarrow>
                             (if snap_exists (getDoc (firestore rootQuery) p)
                              then Some (JObj (snap_data (getDoc (firestore rootQuery) p)))
                              else map_of (dataOf idPropName d) rel)
                         | QueryGet t q \<Rightarrow>
                             Some (JArr (map (\<lambda>doc. JObj (snap_data doc))
                                           (fs_run (firestore rootQuery) q)))
                         | GetAll t paths \<Rightarrow> None))"
    note h = h0 [rule_format]
    from a idp have i: "idPropName = ''id''" by simp
    from b cp have k: "collectionPath = ''posts''" by simp
    from h [of 0 ?p1 "''author''" "''users/u1''"] docs rp1 user obtain e0 where
      e0: "spliced ! 0 = Some e0" "map_of e0 ''author'' = Some (JObj [(''name'', JStr ''Ann'')])"
      unfolding i k log by auto
    from h [of 1 ?p2 "''author''" "''users/u1''"] docs rp2 user obtain e1 where
      e1: "spliced ! 1 = Some e1" "map_of e1 ''author'' = Some (JObj [(''name'', JStr ''Ann'')])"
      unfolding i k log by auto
    from l have two: "length spliced = 2" by (simp add: examplePosts_def)
    have ex: "\<exists>spliced e0 e1.
         ?ents = map (map_option (transformToClass exampleWorld (Class ''Post''))) spliced
       \<and> length spliced = 2
       \<and> spliced ! 0 = Some e0 \<and> map_of e0 ''author'' = Some (JObj [(''name'', JStr ''Ann'')])
       \<and> spliced ! 1 = Some e1 \<and> map_of e1 ''author'' = Some (JObj [(''name'', JStr ''Ann'')])"
      by (rule exI [of _ spliced], rule exI [of _ e0], rule exI [of _ e1])
         (intro conjI c two e0 e1)
    show ?thesis by (rule conjI [OF ev conjI [OF log ex]])
  qed
qed

section \<open>Which errors an operation can end in\<close>

lemma getCollectionPath_low: "getCollectionPath st t = Inl e \<Longrightarrow> lowError e"
  by (auto simp: getCollectionPath_def getCollectionName_def lowError_def split: option.splits)

lemma getIdPropName_low: "getIdPropName st t = Inl e \<Longrightarrow> lowError e"
  by (auto simp: getIdPropName_def getIdProp_def lowError_def split: option.splits sum.splits)

lemma callType_low: "callType f = Inl e \<Longrightarrow> lowError e"
  by (auto simp: callType_def lowError_def split: func.splits)

lemma setMapping_low: "setMapping m index relation path = Inl e \<Longrightarrow> lowError e"
  by (auto simp: setMapping_def lowError_def split: if_splits)

lemma get_prop_low: "get_prop v key = Inl e \<Longrightarrow> lowError e"
  by (auto simp: get_prop_def lowError_def split: jsval.splits)

lemma relationStep_low:
  "relationStep w this collectionPath idPropName metas data index st relation = Inl e
   \<Longrightarrow> lowError e"
  by (auto simp: relationStep_def Let_def
      split: option.splits relationType.splits jsval.splits sum.splits
      dest: getCollectionPath_low callType_low setMapping_low)

lemma relationsLoop_low:
  assumes "\<And>s rel e. step s rel = Inl e \<Longrightarrow> lowError e"
  shows "relationsLoop step rels st = (Some e, st') \<Longrightarrow> lowError e"
proof (induction rels arbitrary: st)
  case Nil
  then show ?case by simp
next
  case (Cons relation rest)
  then show ?case using assms by (auto split: sum.splits)
qed

lemma docsLoop_low:
  "docsLoop w this target collectionPath idPropName rels index docs st = (Inl e, st')
   \<Longrightarrow> lowError e"
proof (induction docs arbitrary: st index st')
  case Nil
  then show ?case by simp
next
  case (Cons doc rest)
  show ?case
  proof (cases doc)
    case None
    with Cons show ?thesis by (auto split: prod.splits sum.splits)
  next
    case (Some d)
    with Cons show ?thesis
      by (auto simp: Let_def split: prod.splits sum.splits option.splits if_splits
          dest: relationsLoop_low [rotated 1, OF _ relationStep_low])
  qed
qed

lemma loadRelations_low: "fst (loadRelations w this target docs rels) = Inl e \<Longrightarrow> lowError e"
  by (auto simp: loadRelations_def split: sum.splits prod.splits
      dest: getCollectionPath_low getIdPropName_low docsLoop_low)

lemma loadRelations_low2: "loadRelations w this target docs rels = (Inl e, l) \<Longrightarrow> lowError e"
  using loadRelations_low [of w this target docs rels e] by simp

lemma plainWhere_low: "plainWhere q fieldPath v = Inl e \<Longrightarrow> lowError e"
  by (auto simp: plainWhere_def split: sum.splits if_splits dest: get_prop_low)

lemma findWhereStep_low: "findWhereStep w metas wh q fieldPath = Inl e \<Longrightarrow> lowError e"
  by (auto simp: findWhereStep_def split: option.splits sum.splits if_splits
      dest: plainWhere_low getCollectionPath_low)

lemma findOneWhereStep_low: "findOneWhereStep w metas wh q fieldPath = Inl e \<Longrightarrow> lowError e"
  by (auto simp: findOneWhereStep_def split: option.splits sum.splits if_splits
      dest: plainWhere_low getCollectionPath_low callType_low)

lemma forEachKey_low:
  assumes "\<And>q k e. step q k = Inl e \<Longrightarrow> lowError e"
  shows "forEachKey step ks q = Inl e \<Longrightarrow> lowError e"
proof (induction ks arbitrary: q)
  case Nil
  then show ?case by simp
next
  case (Cons k ks)
  then show ?case using assms by (auto split: sum.splits)
qed

lemma getQuery_low: "getQuery w this target = Inl e \<Longrightarrow> lowError e"
  by (auto simp: getQuery_def split: if_splits sum.splits dest: getCollectionPath_low)

lemma findQuery_low: "findQuery w this target arg = Inl e \<Longrightarrow> lowError e"
  by (auto simp: findQuery_def split: sum.splits option.splits
      dest: getQuery_low forEachKey_low [rotated 1, OF _ findWhereStep_low])

lemma findOneQuery_low: "findOneQuery w this target arg = Inl e \<Longrightarrow> lowError e"
  by (auto simp: findOneQuery_def split: sum.splits option.splits
      dest: getQuery_low forEachKey_low [rotated 1, OF _ findOneWhereStep_low])

lemma find_cq_low: "fst (find_cq w this target arg) = Inl e \<Longrightarrow> lowError e"
  by (auto simp: find_cq_def split: sum.splits prod.splits
      dest: findQuery_low loadRelations_low2)

lemma find_cq_low2: "find_cq w this target arg = (Inl e, l) \<Longrightarrow> lowError e"
  using find_cq_low [of w this target arg e] by simp

lemma findOne_low: "fst (findOne w this target arg) = Inl e \<Longrightarrow> lowError e"
  by (auto simp: findOne_def Let_def split: sum.splits prod.splits if_splits
      dest: findOneQuery_low loadRelations_low2)

lemma findAndToken_low: "fst (findAndToken w this target arg) = Inl e \<Longrightarrow> lowError e"
  by (auto simp: findAndToken_def Let_def split: sum.splits prod.splits if_splits option.splits
      dest: find_cq_low2 getIdPropName_low)
     (simp_all add: lowError_def)

lemma not_low [simp]:
  "\<not> lowError InvalidPaginationToken" "\<not> lowError (EntityNotFound t)"
  "\<not> lowError FindByIdsNotSupportCollectionGroup" "\<not> lowError InvalidArgument"
  by (simp_all add: lowError_def)

section \<open>Pagination tokens\<close>

lemma docsLoop_Some:
  "docsLoop w this target collectionPath idPropName rels index (map Some ds) st = (Inr datas, st')
   \<Longrightarrow> list_all (\<lambda>x. x \<noteq> None) datas"
proof (induction ds arbitrary: st index datas st')
  case Nil
  then show ?case by simp
next
  case (Cons d ds)
  then show ?case
    by (auto simp: Let_def split: prod.splits sum.splits option.splits if_splits)
qed

lemma splice_Some:
  "list_all (\<lambda>x. x \<noteq> None) ds \<Longrightarrow> list_all (\<lambda>x. x \<noteq> None) (spliceRelations cd ms ds)"
  by (induction cd ms ds rule: spliceRelations.induct) simp_all

lemma loadRelations_Some:
  assumes "fst (loadRelations w this target (map Some ds) rels) = Inr ents"
  shows "list_all (\<lambda>x. x \<noteq> None) ents"
proof -
  from assms obtain idPropName collectionPath datas st where
    run: "docsLoop w this target collectionPath idPropName rels 0 (map Some ds) emptyRelState
            = (Inr datas, st)"
    and ents: "ents = map (map_option (transformToClass w target))
              (if mapping st \<noteq> []
               then spliceRelations (relationCacheData (cache st)) (mapping st) datas else datas)"
    by (rule loadRelations_success)
  from docsLoop_Some [OF run] have "list_all (\<lambda>x. x \<noteq> None) datas" .
  then show ?thesis unfolding ents by (auto simp: list_all_iff dest: splice_Some [unfolded list_all_iff, rule_format, rotated])
qed

lemma loadRelations_idProp:
  "fst (loadRelations w this target docs rels) = Inr ents
   \<Longrightarrow> \<exists>idPropName. getIdPropName (metadataStorage w) target = Inr idPropName"
  by (erule loadRelations_success) simp

lemma find_cq_success:
  assumes "fst (find_cq w this target arg) = Inr ents"
  shows "list_all (\<lambda>x. x \<noteq> None) ents"
    and "\<exists>idPropName. getIdPropName (metadataStorage w) target = Inr idPropName"
proof -
  from assms obtain q where q: "findQuery w this target arg = Inr q"
    by (cases "findQuery w this target arg") (auto simp: find_cq_def)
  with assms have l: "fst (loadRelations w this target (map Some (fs_run (firestore this) q))
                        (relationsOf arg)) = Inr ents"
    by (auto simp: find_cq_def split: prod.splits)
  from loadRelations_Some [OF l] show "list_all (\<lambda>x. x \<noteq> None) ents" .
  from loadRelations_idProp [OF l]
  show "\<exists>idPropName. getIdPropName (metadataStorage w) target = Inr idPropName" .
qed

lemma findAndToken_log: "snd (findAndToken w this target arg) = snd (find_cq w this target arg)"
  by (auto simp: findAndToken_def Let_def split: prod.splits sum.splits option.splits)

lemma findAndToken_entities:
  "fst (findAndToken w this target arg) = Inr (tok, ents) \<Longrightarrow> fst (find_cq w this target arg) = Inr ents"
  by (auto simp: findAndToken_def Let_def split: prod.splits sum.splits option.splits if_splits)

lemma findAndToken_total:
  assumes "fst (find_cq w this target arg) = Inr ents"
  shows "\<exists>tok. fst (findAndToken w this target arg) = Inr (tok, ents)"
proof -
  from find_cq_success [OF assms] obtain idPropName where
    nn: "list_all (\<lambda>x. x \<noteq> None) ents"
    and idp: "getIdPropName (metadataStorage w) target = Inr idPropName"
    by blast
  obtain log where f: "find_cq w this target arg = (Inr ents, log)"
    using assms by (cases "find_cq w this target arg") simp
  show ?thesis
  proof (cases "t_limit (tokenObjOf arg) = None \<or> t_order (tokenObjOf arg) = None
                \<or> the (t_limit (tokenObjOf arg)) > length ents")
    case True
    with f show ?thesis by (auto simp: findAndToken_def Let_def)
  next
    case False
    then have "t_limit (tokenObjOf arg) \<noteq> Some 0"
      by (auto simp: tokenObjOf_def split: find_arg.splits option.splits if_splits)
    with False have ne: "ents \<noteq> []" by auto
    with nn have "last ents \<noteq> None" by (auto simp: list_all_iff)
    then obtain lastDocument where "last ents = Some lastDocument" by auto
    with False f idp ne show ?thesis by (auto simp: findAndToken_def Let_def)
  qed
qed

text \<open>
  C3, as stated, fails: options that specify an order and a limit of zero get no token,
  although the two documents returned are at least as many as the limit. (The zero is
  falsy: \<open>find\<close> applies no limit and \<open>findAndToken\<close> records none.)
\<close>

theorem zero_limit_gives_no_token:
  "o_limit zeroLimitOptions = Some 0
   \<and> o_order zeroLimitOptions = Some [(''title'', ''asc'')]
   \<and> fst (findAndToken exampleWorld rootQuery (Class ''Post'') (Options zeroLimitOptions))
       = Inr (None,
              [Some [(''title'', JStr ''A''), (''author'', JStr ''u1''), (''id'', JStr ''p1'')],
               Some [(''title'', JStr ''B''), (''author'', JStr ''u1''), (''id'', JStr ''p2'')]])"
  by (simp add: model_defs example_defs zeroLimitOptions_def Let_def)

text \<open>
  C3, amended: \<open>findAndToken\<close> resolves exactly when \<open>find\<close> does, with the
  entity list \<open>find\<close> returns and the same reads. Its token is defined if and only if
  the argument is an options object with an order and a limit that is not zero, and at
  least as many entities were returned as the limit. A defined token is the payload
  signed with the secret \<open>fireorm\<close> (so it verifies to the payload): the where, select,
  order and limit of the options and, as last document id, the id property of the last
  entity returned.
\<close>

theorem findAndToken_token_iff:
  "((\<exists>tok. fst (findAndToken w this target arg) = Inr (tok, ents))
      \<longleftrightarrow> fst (find_cq w this target arg) = Inr ents)
   \<and> snd (findAndToken w this target arg) = snd (find_cq w this target arg)
   \<and> (\<forall>tok. fst (findAndToken w this target arg) = Inr (tok, ents) \<longrightarrow>
        (tok \<noteq> None \<longleftrightarrow>
           (\<exists>opts n ord. arg = Options opts \<and> o_limit opts = Some n \<and> n \<noteq> 0
              \<and> o_order opts = Some ord \<and> n \<le> length ents))
        \<and> (\<forall>t. tok = Some t \<longrightarrow>
             (\<exists>opts idPropName lastDocument payload.
                 arg = Options opts
               \<and> getIdPropName (metadataStorage w) target = Inr idPropName
               \<and> ents \<noteq> [] \<and> last ents = Some lastDocument
               \<and> payload = \<lparr>t_where = o_where opts, t_select = o_select opts,
                             t_order = o_order opts, t_limit = o_limit opts,
                             t_lastDocumentId = obj_get lastDocument idPropName\<rparr>
               \<and> t = jwt_sign payload ''fireorm''
               \<and> jwt_verify t ''fireorm'' = Some payload)))"
proof (intro conjI allI impI)
  show "(\<exists>tok. fst (findAndToken w this target arg) = Inr (tok, ents))
          \<longleftrightarrow> fst (find_cq w this target arg) = Inr ents"
    using findAndToken_entities findAndToken_total by blast
  show "snd (findAndToken w this target arg) = snd (find_cq w this target arg)"
    by (rule findAndToken_log)
next
  fix tok
  assume ok: "fst (findAndToken w this target arg) = Inr (tok, ents)"
  from findAndToken_entities [OF ok] obtain log where
    f: "find_cq w this target arg = (Inr ents, log)"
    by (cases "find_cq w this target arg") simp
  show "tok \<noteq> None \<longleftrightarrow>
           (\<exists>opts n ord. arg = Options opts \<and> o_limit opts = Some n \<and> n \<noteq> 0
              \<and> o_order opts = Some ord \<and> n \<le> length ents)"
    using ok f
    by (cases arg)
       (auto simp: findAndToken_def Let_def tokenObjOf_def
          getFindConditionsFromFindManyOptions_def
          split: sum.splits option.splits if_splits)
next
  fix tok t
  assume ok: "fst (findAndToken w this target arg) = Inr (tok, ents)" and t: "tok = Some t"
  from findAndToken_entities [OF ok] obtain log where
    f: "find_cq w this target arg = (Inr ents, log)"
    by (cases "find_cq w this target arg") simp
  show "\<exists>opts idPropName lastDocument payload.
                 arg = Options opts
               \<and> getIdPropName (metadataStorage w) target = Inr idPropName
               \<and> ents \<noteq> [] \<and> last ents = Some lastDocument
               \<and> payload = \<lparr>t_where = o_where opts, t_select = o_select opts,
                             t_order = o_order opts, t_limit = o_limit opts,
                             t_lastDocumentId = obj_get lastDocument idPropName\<rparr>
               \<and> t = jwt_sign payload ''fireorm''
               \<and> jwt_verify t ''fireorm'' = Some payload"
    using ok f t
    by (cases arg)
       (auto simp: findAndToken_def Let_def tokenObjOf_def jwt_sign_def jwt_verify_def
          getFindConditionsFromFindManyOptions_def
          split: sum.splits option.splits if_splits)
qed

text \<open>
  C3 (amended) at the example store: a page of one post, ordered by title, comes with a
  token for the post \<open>p1\<close>.
\<close>

theorem findAndToken_token_iff_witness:
  "fst (findAndToken exampleWorld rootQuery (Class ''Post'') (Options pageOptions))
     = Inr (Some (jwt_sign \<lparr>t_where = None, t_select = None,
                            t_order = Some [(''title'', ''asc'')], t_limit = Some 1,
                            t_lastDocumentId = JStr ''p1''\<rparr> ''fireorm''),
            [Some [(''title'', JStr ''A''), (''author'', JStr ''u1''), (''id'', JStr ''p1'')]])
   \<and> fst (find_cq exampleWorld rootQuery (Class ''Post'') (Options pageOptions))
     = Inr [Some [(''title'', JStr ''A''), (''author'', JStr ''u1''), (''id'', JStr ''p1'')]]
   \<and> (\<exists>opts n ord. Options pageOptions = Options opts \<and> o_limit opts = Some n \<and> n \<noteq> 0
         \<and> o_order opts = Some ord
         \<and> n \<le> length [Some [(''title'', JStr ''A''), (''author'', JStr ''u1''),
                               (''id'', JStr ''p1'')]])"
proof -
  let ?ents = "[Some [(''title'', JStr ''A''), (''author'', JStr ''u1''), (''id'', JStr ''p1'')]]"
  let ?tok = "Some (jwt_sign \<lparr>t_where = None, t_select = None,
                            t_order = Some [(''title'', ''asc'')], t_limit = Some 1,
                            t_lastDocumentId = JStr ''p1''\<rparr> ''fireorm'')"
  have ev: "fst (findAndToken exampleWorld rootQuery (Class ''Post'') (Options pageOptions))
     = Inr (?tok, ?ents)"
    by (simp add: model_defs example_defs pageOptions_def Let_def)
  note th = findAndToken_token_iff
              [of exampleWorld rootQuery "Class ''Post''" "Options pageOptions" ?ents]
  from th ev have f: "fst (find_cq exampleWorld rootQuery (Class ''Post'') (Options pageOptions))
     = Inr ?ents" by blast
  from th [THEN conjunct2, THEN conjunct2, rule_format, OF ev, THEN conjunct1]
  have "\<exists>opts n ord. Options pageOptions = Options opts \<and> o_limit opts = Some n \<and> n \<noteq> 0
         \<and> o_order opts = Some ord \<and> n \<le> length ?ents"
    by simp
  with ev f show ?thesis by blast
qed

lemma findAndToken_not_invalid:
  "fst (findAndToken w this target arg) \<noteq> Inl InvalidPaginationToken"
  using findAndToken_low [of w this target arg InvalidPaginationToken] by auto

lemma getDocumentRef_not_invalid:
  "getDocumentRef w this target i \<noteq> Inl InvalidPaginationToken"
  using getCollectionPath_low [of "metadataStorage w" target InvalidPaginationToken]
  by (auto simp: getDocumentRef_def clientDoc_def split: sum.splits if_splits)

text \<open>
  When \<open>findByToken\<close> ends in the invalid-pagination-token error: exactly when the
  token does not verify, or the payload has no (truthy) last document id, or
  \<open>getDocumentRef\<close> gives a path for that id and no document is at that path. The path
  is in the registered collection of the class, whatever collection the query object
  ranges over. An error of \<open>getDocumentRef\<close> (of the registry, or of the client for an
  id that is no document id) is passed on and is not this error. Where the document
  exists the result is that of \<open>findAndToken\<close> on the payload's query shape with the
  document as the cursor.
\<close>

lemma findByToken_invalid_iff:
  "(fst (findByToken w this target tok) = Inl InvalidPaginationToken \<longleftrightarrow>
      (jwt_verify tok ''fireorm'' = None
       \<or> (\<exists>payload. jwt_verify tok ''fireorm'' = Some payload
             \<and> \<not> truthy (t_lastDocumentId payload))
       \<or> (\<exists>payload lastDocumentId path.
             jwt_verify tok ''fireorm'' = Some payload
           \<and> t_lastDocumentId payload = JStr lastDocumentId \<and> lastDocumentId \<noteq> []
           \<and> getDocumentRef w this target lastDocumentId = Inr path
           \<and> fs_doc (firestore this) path = None)))
   \<and> (\<forall>payload lastDocumentId path.
         jwt_verify tok ''fireorm'' = Some payload
       \<and> t_lastDocumentId payload = JStr lastDocumentId \<and> lastDocumentId \<noteq> []
       \<and> getDocumentRef w this target lastDocumentId = Inr path
       \<and> fs_doc (firestore this) path \<noteq> None
       \<longrightarrow> fst (findByToken w this target tok)
             = fst (findAndToken w this target
                      (Options (resumeOptions payload (getDoc (firestore this) path)))))"
proof (intro conjI allI impI)
  show "fst (findByToken w this target tok) = Inl InvalidPaginationToken \<longleftrightarrow>
      (jwt_verify tok ''fireorm'' = None
       \<or> (\<exists>payload. jwt_verify tok ''fireorm'' = Some payload
             \<and> \<not> truthy (t_lastDocumentId payload))
       \<or> (\<exists>payload lastDocumentId path.
             jwt_verify tok ''fireorm'' = Some payload
           \<and> t_lastDocumentId payload = JStr lastDocumentId \<and> lastDocumentId \<noteq> []
           \<and> getDocumentRef w this target lastDocumentId = Inr path
           \<and> fs_doc (firestore this) path = None))"
  proof (cases "jwt_verify tok ''fireorm''")
    case None
    then show ?thesis by (simp add: findByToken_def)
  next
    case (Some payload)
    show ?thesis
    proof (cases "truthy (t_lastDocumentId payload)")
      case False
      with Some show ?thesis by (simp add: findByToken_def)
    next
      case True
      show ?thesis
      proof (cases "t_lastDocumentId payload")
        case (JStr lastDocumentId)
        with True have ne: "lastDocumentId \<noteq> []" by simp
        show ?thesis
        proof (cases "getDocumentRef w this target lastDocumentId")
          case (Inl e)
          with Some True JStr getDocumentRef_not_invalid [of w this target lastDocumentId]
          show ?thesis by (auto simp: findByToken_def)
        next
          case (Inr path)
          with Some True JStr ne
            findAndToken_not_invalid [of w this target
              "Options (resumeOptions payload (getDoc (firestore this) path))"]
          show ?thesis
            by (auto simp: findByToken_def Let_def getDoc_def split: prod.splits)
        qed
      qed (use Some True in \<open>auto simp: findByToken_def\<close>)
    qed
  qed
next
  fix payload lastDocumentId path
  assume "jwt_verify tok ''fireorm'' = Some payload
       \<and> t_lastDocumentId payload = JStr lastDocumentId \<and> lastDocumentId \<noteq> []
       \<and> getDocumentRef w this target lastDocumentId = Inr path
       \<and> fs_doc (firestore this) path \<noteq> None"
  then show "fst (findByToken w this target tok)
             = fst (findAndToken w this target
                      (Options (resumeOptions payload (getDoc (firestore this) path))))"
    by (auto simp: findByToken_def Let_def getDoc_def split: prod.splits)
qed

text \<open>
  For instance, a verified token whose last document id is \<open>a/b\<close> ends in the client's
  error, not in the invalid-pagination-token error, and nothing is read.
\<close>

lemma findByToken_passes_on_the_client_error:
  "findByToken exampleWorld rootQuery (Class ''Post'')
     (Signed ''fireorm'' \<lparr>t_where = None, t_select = None,
        t_order = Some [(''title'', ''asc'')], t_limit = Some 1,
        t_lastDocumentId = JStr ''a/b''\<rparr>)
   = (Inl InvalidArgument, [])"
  by (simp add: model_defs example_defs Let_def)

text \<open>
  C2 fails on a query object made with a parent path: \<open>findAndToken\<close> over the
  sub-collection \<open>users/u1/drafts\<close> returns a token for the draft \<open>d1\<close>, and
  \<open>findByToken\<close> with that token, over the unchanged store, looks the cursor document
  up at \<open>posts/d1\<close> (the registered collection of the class, not the parent path the
  query ran on) and ends in the invalid-pagination-token error.
\<close>

theorem findByToken_fails_under_parent_path:
  "findAndToken exampleWorld draftsQuery (Class ''Post'') (Options pageOptions)
     = (Inr (Some (Signed ''fireorm'' \<lparr>t_where = None, t_select = None,
                     t_order = Some [(''title'', ''asc'')], t_limit = Some 1,
                     t_lastDocumentId = JStr ''d1''\<rparr>),
             [Some [(''title'', JStr ''C''), (''id'', JStr ''d1'')]]),
        [QueryGet False \<lparr>q_source = CollectionAt ''users/u1/drafts'',
           q_steps = [QOrderBy ''title'' ''asc'', QLimit 1]\<rparr>])
   \<and> findByToken exampleWorld draftsQuery (Class ''Post'')
       (Signed ''fireorm'' \<lparr>t_where = None, t_select = None,
          t_order = Some [(''title'', ''asc'')], t_limit = Some 1,
          t_lastDocumentId = JStr ''d1''\<rparr>)
     = (Inl InvalidPaginationToken, [DocGet ''posts/d1''])"
  by (simp add: model_defs example_defs pageOptions_def draftsQuery_def Let_def)

text \<open>
  C4 fails on a query object made with a parent path, by the defect shown for C2: the
  token verifies, its payload has the last document id \<open>d1\<close>, and the document \<open>d1\<close>
  still exists in the collection the query ranges over (\<open>users/u1/drafts\<close>), so none
  of the three cases holds; yet \<open>findByToken\<close> ends in the invalid-pagination-token
  error, because \<open>getDocumentRef\<close> looks for \<open>posts/d1\<close>.
\<close>

theorem findByToken_invalid_although_the_document_exists:
  "jwt_verify (Signed ''fireorm'' \<lparr>t_where = None, t_select = None,
                 t_order = Some [(''title'', ''asc'')], t_limit = Some 1,
                 t_lastDocumentId = JStr ''d1''\<rparr>) ''fireorm''
     = Some \<lparr>t_where = None, t_select = None,
               t_order = Some [(''title'', ''asc'')], t_limit = Some 1,
               t_lastDocumentId = JStr ''d1''\<rparr>
   \<and> getQuery exampleWorld draftsQuery (Class ''Post'')
     = Inr \<lparr>q_source = CollectionAt ''users/u1/drafts'', q_steps = []\<rparr>
   \<and> fs_doc (firestore draftsQuery) ''users/u1/drafts/d1'' = Some [(''title'', JStr ''C'')]
   \<and> fst (findByToken exampleWorld draftsQuery (Class ''Post'')
            (Signed ''fireorm'' \<lparr>t_where = None, t_select = None,
               t_order = Some [(''title'', ''asc'')], t_limit = Some 1,
               t_lastDocumentId = JStr ''d1''\<rparr>))
     = Inl InvalidPaginationToken"
  by (simp add: model_defs example_defs draftsQuery_def Let_def)

text \<open>
  What the token does get right: whenever the cursor document is found at the path
  \<open>getDocumentRef\<close> gives (in the registered collection of the class),
  \<open>findByToken\<close> is \<open>findAndToken\<close> with the where, select, order and limit of the
  first call and that document as the cursor.
\<close>

lemma findByToken_resumes:
  assumes "fst (findAndToken w this target (Options opts)) = Inr (Some tok, ents)"
    and "getDocumentRef w this target i = Inr path"
    and "getIdPropName (metadataStorage w) target = Inr idPropName"
    and "last ents = Some lastDocument"
    and "obj_get lastDocument idPropName = JStr i" and "i \<noteq> []"
    and "fs_doc (firestore this) path \<noteq> None"
  shows "fst (findByToken w this target tok)
           = fst (findAndToken w this target
                    (Options \<lparr>o_where = o_where opts, o_select = o_select opts,
                               o_order = o_order opts, o_limit = o_limit opts,
                               o_offset = None,
                               o_startAfter = Some [CursorSnapshot
                                  (getDoc (firestore this) path)],
                               o_startAt = None, o_endBefore = None, o_endAt = None,
                               o_relations = None\<rparr>))"
proof -
  from assms(1,3,4,5) have tok: "tok = Signed ''fireorm''
      \<lparr>t_where = o_where opts, t_select = o_select opts, t_order = o_order opts,
         t_limit = o_limit opts, t_lastDocumentId = JStr i\<rparr>"
    by (auto simp: findAndToken_def Let_def tokenObjOf_def jwt_sign_def
          getFindConditionsFromFindManyOptions_def
        split: prod.splits sum.splits option.splits if_splits)
  show ?thesis
    unfolding tok using assms(2,6,7)
    by (simp add: findByToken_def jwt_verify_def Let_def getDoc_def
          resumeOptions_def split: prod.splits)
qed

section \<open>findOne and findOneOrFail\<close>

lemma findOne_not_missing: "fst (findOne w this target arg) \<noteq> Inl (EntityNotFound t)"
  using findOne_low [of w this target arg "EntityNotFound t"] by auto

lemma findOne_not_missing2: "findOne w this target arg = (Inl (EntityNotFound t), l) \<Longrightarrow> False"
  using findOne_not_missing [of w this target arg t] by simp

lemma firstOf_defined: "entities \<noteq> [] \<Longrightarrow> firstOf entities \<noteq> Undefined"
  by (auto simp: firstOf_def split: list.splits option.splits)

lemma findOne_undefined_iff:
  "fst (findOne w this target arg) = Inr Undefined \<longleftrightarrow>
     (\<exists>q. findOneQuery w this target arg = Inr q
        \<and> (fs_run (firestore this) (addStep q (QLimit 1)) = []
           \<or> \<not> snap_exists (hd (fs_run (firestore this) (addStep q (QLimit 1))))))"
proof (cases "findOneQuery w this target arg")
  case (Inl e)
  then show ?thesis by (simp add: findOne_def)
next
  case (Inr q)
  let ?docs = "fs_run (firestore this) (addStep q (QLimit 1))"
  show ?thesis
  proof (cases "?docs = [] \<or> \<not> snap_exists (hd ?docs)")
    case True
    with Inr show ?thesis by (auto simp: findOne_def Let_def)
  next
    case False
    obtain r log where l: "loadRelations w this target (map Some ?docs) (relationsOf arg) = (r, log)"
      by (cases "loadRelations w this target (map Some ?docs) (relationsOf arg)")
    show ?thesis
    proof (cases r)
      case (Inl e)
      with Inr False l show ?thesis by (auto simp: findOne_def Let_def)
    next
      case r: (Inr entities)
      with l length_loadRelations [of w this target "map Some ?docs" "relationsOf arg" entities] False
      have "entities \<noteq> []" by auto
      with Inr False l r firstOf_defined show ?thesis by (auto simp: findOne_def Let_def)
    qed
  qed
qed

text \<open>
  C5: \<open>findOneOrFail\<close> rejects with the entity-not-found error exactly when
  \<open>findOne\<close> resolves to undefined, which is exactly when the query was built and its
  first document is absent; an error of \<open>findOne\<close> is passed on as it is, any other
  value of \<open>findOne\<close> is resolved unchanged, and the reads issued are those of the one
  \<open>findOne\<close> call (nothing is tried again).
\<close>

theorem findOneOrFail_rejects_iff_undefined:
  "((\<exists>t. fst (findOneOrFail w this target arg) = Inl (EntityNotFound t))
      \<longleftrightarrow> fst (findOne w this target arg) = Inr Undefined)
   \<and> (fst (findOne w this target arg) = Inr Undefined \<longleftrightarrow>
        (\<exists>q. findOneQuery w this target arg = Inr q
           \<and> (fs_run (firestore this) (addStep q (QLimit 1)) = []
              \<or> \<not> snap_exists (hd (fs_run (firestore this) (addStep q (QLimit 1)))))))
   \<and> fst (findOneOrFail w this target arg)
       = (case fst (findOne w this target arg) of
            Inl e \<Rightarrow> Inl e
          | Inr Undefined \<Rightarrow> Inl (EntityNotFound target)
          | Inr v \<Rightarrow> Inr v)
   \<and> snd (findOneOrFail w this target arg) = snd (findOne w this target arg)"
proof (intro conjI)
  show "(\<exists>t. fst (findOneOrFail w this target arg) = Inl (EntityNotFound t))
      \<longleftrightarrow> fst (findOne w this target arg) = Inr Undefined"
    by (auto simp: findOneOrFail_def split: prod.splits sum.splits if_splits
        dest: findOne_not_missing2)
  show "fst (findOne w this target arg) = Inr Undefined \<longleftrightarrow>
        (\<exists>q. findOneQuery w this target arg = Inr q
           \<and> (fs_run (firestore this) (addStep q (QLimit 1)) = []
              \<or> \<not> snap_exists (hd (fs_run (firestore this) (addStep q (QLimit 1))))))"
    by (rule findOne_undefined_iff)
  show "fst (findOneOrFail w this target arg)
       = (case fst (findOne w this target arg) of
            Inl e \<Rightarrow> Inl e
          | Inr Undefined \<Rightarrow> Inl (EntityNotFound target)
          | Inr v \<Rightarrow> Inr v)"
    by (auto simp: findOneOrFail_def split: prod.splits sum.splits jsopt.splits)
  show "snd (findOneOrFail w this target arg) = snd (findOne w this target arg)"
    by (auto simp: findOneOrFail_def split: prod.splits sum.splits)
qed

text \<open>
  C6 fails on the example registry: for the condition \<open>author = 'u1'\<close> on posts,
  whose \<open>author\<close> relation has the lazy type \<open>() => User\<close>, \<open>findOne\<close> calls the
  thunk and queries \<open>author == users/u1\<close>, while \<open>find\<close> passes the thunk itself to
  \<open>getCollectionPath\<close> and ends in CollectionNotFound before any read.
\<close>

theorem find_passes_the_thunk_findOne_calls_it:
  "find_cq exampleWorld rootQuery (Class ''Post'') (Conditions [(''author'', JStr ''u1'')])
     = (Inl CollectionNotFound, [])
   \<and> findOne exampleWorld rootQuery (Class ''Post'') (Conditions [(''author'', JStr ''u1'')])
     = (Inr (Value [(''title'', JStr ''A''), (''author'', JStr ''u1''), (''id'', JStr ''p1'')]),
        [QueryGet False \<lparr>q_source = CollectionAt ''posts'',
           q_steps = [QWhere ''author'' (JStr ''=='') (JRef ''users/u1''), QLimit 1]\<rparr>])"
  by (simp add: model_defs example_defs Let_def)

text \<open>
  The difference does not depend on the example: in a registry whose collections are
  registered under classes, a relation condition whose value is not a reference fails
  in \<open>find\<close> when the relation's type is a thunk, and in \<open>findOne\<close> when it is the
  class itself.
\<close>

lemma thunk_is_no_registered_class:
  assumes "list_all (\<lambda>c. \<exists>n. c_target c = Class n) (collections st)"
  shows "getCollectionPath st (Thunk c) = Inl CollectionNotFound"
proof -
  from assms have "List.find (\<lambda>collection. c_target collection = Thunk c) (collections st) = None"
    by (auto simp: find_None_iff list_all_iff)
  then show ?thesis by (simp add: getCollectionPath_def getCollectionName_def)
qed

lemma relation_condition_fails_in_find_or_findOne:
  assumes "list_all (\<lambda>c. \<exists>n. c_target c = Class n) (collections (metadataStorage w))"
    and "List.find (\<lambda>item. r_propertyName item = fieldPath) metas = Some relationMetadata"
    and "\<not> is_ref (obj_get wh fieldPath)"
  shows "findWhereStep w metas wh q fieldPath = Inl CollectionNotFound
         \<or> findOneWhereStep w metas wh q fieldPath = Inl TypeError"
proof (cases "r_type relationMetadata")
  case (Class n)
  with assms(2) show ?thesis by (simp add: findOneWhereStep_def callType_def)
next
  case (Thunk n)
  with assms thunk_is_no_registered_class [OF assms(1), of n] show ?thesis
    by (simp add: findWhereStep_def)
qed

section \<open>findByIds\<close>

lemma findByIds_group_iff:
  "fst (findByIds w this target idOrIds opts) = Inl FindByIdsNotSupportCollectionGroup
     \<longleftrightarrow> truthy_str (collectionId (options this))"
proof (cases "truthy_str (collectionId (options this))")
  case True
  then show ?thesis by (simp add: findByIds_def)
next
  case False
  have "e \<noteq> FindByIdsNotSupportCollectionGroup"
    if "loadRelations w this target docs rels = (Inl e, l)" for docs rels e l
    using loadRelations_low2 [OF that] by auto
  moreover have "e \<noteq> FindByIdsNotSupportCollectionGroup"
    if "getCollectionPath (metadataStorage w) target = Inl e" for e
    using getCollectionPath_low [OF that] by auto
  ultimately show ?thesis
    using False
    by (auto simp: findByIds_def Let_def
        split: sum.splits prod.splits id_arg.splits if_splits)
qed

lemma getQuery_group_iff:
  "(\<exists>q g. getQuery w this target = Inr q \<and> q_source q = CollectionGroupOf g)
     \<longleftrightarrow> truthy_str (collectionId (options this))"
  by (auto simp: getQuery_def split: if_splits sum.splits)

text \<open>
  C9: whenever the query object was constructed with a collection id option that makes
  it a collection-group query (\<open>getQuery\<close> builds the collection group, which it does
  exactly for a collection id that is not the empty string), \<open>findByIds\<close> ends in the
  error "findByIds not support CollectionGroup" and has issued no read; with no
  collection id option it never ends in that error, and it ends in that error for a
  collection-group query only.
\<close>

theorem findByIds_collection_group:
  "((\<exists>q g. getQuery w this target = Inr q \<and> q_source q = CollectionGroupOf g) \<longrightarrow>
      findByIds w this target idOrIds opts = (Inl FindByIdsNotSupportCollectionGroup, []))
   \<and> (collectionId (options this) = None \<longrightarrow>
        fst (findByIds w this target idOrIds opts) \<noteq> Inl FindByIdsNotSupportCollectionGroup)
   \<and> (fst (findByIds w this target idOrIds opts) = Inl FindByIdsNotSupportCollectionGroup
        \<longleftrightarrow> (\<exists>q g. getQuery w this target = Inr q \<and> q_source q = CollectionGroupOf g))
   \<and> ((\<exists>q g. getQuery w this target = Inr q \<and> q_source q = CollectionGroupOf g)
        \<longleftrightarrow> (\<exists>s. collectionId (options this) = Some s \<and> s \<noteq> []))"
proof -
  have t: "truthy_str (collectionId (options this))
             \<longleftrightarrow> (\<exists>s. collectionId (options this) = Some s \<and> s \<noteq> [])"
    by (auto simp: truthy_str_def split: option.splits)
  have n: "collectionId (options this) = None \<Longrightarrow> \<not> truthy_str (collectionId (options this))"
    by (simp add: truthy_str_def)
  have g: "truthy_str (collectionId (options this)) \<Longrightarrow>
           findByIds w this target idOrIds opts = (Inl FindByIdsNotSupportCollectionGroup, [])"
    by (simp add: findByIds_def)
  from t n g findByIds_group_iff [of w this target idOrIds opts]
    getQuery_group_iff [of w this target]
  show ?thesis by blast
qed

text \<open>
  C9 at the query object over the collection group \<open>drafts\<close>.
\<close>

theorem findByIds_collection_group_witness:
  "getQuery exampleWorld groupQuery (Class ''Post'')
     = Inr \<lparr>q_source = CollectionGroupOf ''drafts'', q_steps = []\<rparr>
   \<and> findByIds exampleWorld groupQuery (Class ''Post'') (ManyIds [''d1'', ''d2'']) None
     = (Inl FindByIdsNotSupportCollectionGroup, [])"
proof -
  have q: "getQuery exampleWorld groupQuery (Class ''Post'')
             = Inr \<lparr>q_source = CollectionGroupOf ''drafts'', q_steps = []\<rparr>"
    by (simp add: getQuery_def truthy_str_def groupQuery_def)
  then have "\<exists>q g. getQuery exampleWorld groupQuery (Class ''Post'') = Inr q
                  \<and> q_source q = CollectionGroupOf g"
    by simp
  with findByIds_collection_group
         [of exampleWorld groupQuery "Class ''Post''" "ManyIds [''d1'', ''d2'']" None]
  have "findByIds exampleWorld groupQuery (Class ''Post'') (ManyIds [''d1'', ''d2'']) None
          = (Inl FindByIdsNotSupportCollectionGroup, [])"
    by blast
  with q show ?thesis by (rule conjI)
qed

text \<open>
  A query object constructed with the empty string as collection id is no
  collection-group query: \<open>getQuery\<close> queries the collection of the class, and
  \<open>findByIds\<close> reads the document and returns it.
\<close>

lemma empty_collection_id_is_no_collection_group:
  "collectionId (options emptyGroupQuery) = Some []
   \<and> getQuery exampleWorld emptyGroupQuery (Class ''Post'')
       = Inr \<lparr>q_source = CollectionAt ''posts'', q_steps = []\<rparr>
   \<and> findByIds exampleWorld emptyGroupQuery (Class ''Post'') (OneId ''p1'') None
       = (Inr (Single (Value [(''title'', JStr ''A''), (''author'', JStr ''u1''),
                              (''id'', JStr ''p1'')])),
          [GetAll False [''posts/p1'']])"
  by (simp add: model_defs example_defs emptyGroupQuery_def Let_def)

text \<open>
  C10 fails when relations are requested and a missing document comes before an
  existing one: for the ids \<open>zz\<close> (no such post) and \<open>p1\<close> with the relation
  \<open>author\<close>, \<open>findByIds\<close> ends in a TypeError, because the mapping object of the
  second document was pushed at index 0 and is then written at index 1. Without
  relations the same call returns null for \<open>zz\<close> and the entity for \<open>p1\<close>.
\<close>

theorem findByIds_rejects_after_a_missing_document:
  "findByIds exampleWorld rootQuery (Class ''Post'') (ManyIds [''zz'', ''p1'']) (Some authorOptions)
     = (Inl TypeError, [GetAll False [''posts/zz'', ''posts/p1'']])
   \<and> findByIds exampleWorld rootQuery (Class ''Post'') (ManyIds [''zz'', ''p1'']) None
     = (Inr (Many [None, Some [(''title'', JStr ''A''), (''author'', JStr ''u1''),
                               (''id'', JStr ''p1'')]]),
        [GetAll False [''posts/zz'', ''posts/p1'']])"
  by (simp add: model_defs example_defs authorOptions_def Let_def)

text \<open>
  Without relations the result has one entry per id, in order: null where no document
  has the id, the entity otherwise.
\<close>

lemma findByIds_without_relations:
  assumes "\<not> truthy_str (collectionId (options this))"
    and "\<not> truthy_str (parentPath (options this))"
    and "getIdPropName (metadataStorage w) target = Inr idPropName"
    and "getCollectionPath (metadataStorage w) target = Inr collectionPath"
  shows "fst (findByIds w this target (ManyIds idList) None)
           = Inr (Many (map (\<lambda>i. case fs_doc (firestore this) (collectionPath @ ''/'' @ i) of
                                   None \<Rightarrow> None
                                 | Some d \<Rightarrow>
                                     Some (transformToClass w target
                                             (obj_set d idPropName
                                                (JStr (ref_id (collectionPath @ ''/'' @ i))))))
                          idList))"
  using assms
  by (simp add: findByIds_def Let_def loadRelations_no_relations [OF assms(3,4)] comp_def
        getDoc_def dataOf_def
      split: option.splits)

end
